theory Spec2Isabelle
  imports Complex_Main
begin

section \<open>Pilot Journey Log: time arithmetic\<close>

text \<open>
  The sheet editor of \<^verbatim>\<open>pilot_journey_log_app_react.jsx\<close> keeps every clock time as
  text. Strings are lists of characters (code units below 256); the numbers the time
  functions compute are integers, so they are modelled by \<open>nat\<close> and \<open>int\<close>.
\<close>

definition isDigit :: "char \<Rightarrow> bool" where
  \<comment> \<open>the regular expression class \<^verbatim>\<open>\d\<close>\<close>
  "isDigit c = (c \<in> set ''0123456789'')"

definition digitVal :: "char \<Rightarrow> nat" where
  "digitVal c = of_char c - 48"

definition decimalVal :: "string \<Rightarrow> nat" where
  \<comment> \<open>\<^verbatim>\<open>Number(ds)\<close> on a non-empty run of decimal digits\<close>
  "decimalVal ds = foldl (\<lambda>n c. 10 * n + digitVal c) 0 ds"

fun match_hm :: "string \<Rightarrow> (string \<times> string) option" where
  \<comment> \<open>\<^verbatim>\<open>hm.match(/^(\d{1,2}):(\d{2})$/)\<close>: the two capture groups, or no match\<close>
  "match_hm [h1, c, m1, m2] =
     (if isDigit h1 \<and> c = CHR '':'' \<and> isDigit m1 \<and> isDigit m2
      then Some ([h1], [m1, m2]) else None)"
| "match_hm [h1, h2, c, m1, m2] =
     (if isDigit h1 \<and> isDigit h2 \<and> c = CHR '':'' \<and> isDigit m1 \<and> isDigit m2
      then Some ([h1, h2], [m1, m2]) else None)"
| "match_hm _ = None"

definition hmToMinutes :: "string \<Rightarrow> nat" where
  "hmToMinutes hm =
     (if hm = [] then 0
      else case match_hm hm of
             None \<Rightarrow> 0
           | Some (h, mi) \<Rightarrow> decimalVal h * 60 + decimalVal mi)"

definition toInt32 :: "int \<Rightarrow> int" where
  \<comment> \<open>\<^verbatim>\<open>mins | 0\<close> on an integer: reduction to the signed 32-bit range\<close>
  "toInt32 x = (x + 2 ^ 31) mod 2 ^ 32 - 2 ^ 31"

fun showNat :: "nat \<Rightarrow> string" where
  \<comment> \<open>\<^verbatim>\<open>n.toString()\<close> for a non-negative integer\<close>
  "showNat n =
     (if n < 10 then [''0123456789'' ! n]
      else showNat (n div 10) @ [''0123456789'' ! (n mod 10)])"

definition padStart2 :: "string \<Rightarrow> string" where
  \<comment> \<open>\<^verbatim>\<open>s.padStart(2, "0")\<close>\<close>
  "padStart2 s = replicate (2 - length s) (CHR ''0'') @ s"

definition minutesToHM :: "int \<Rightarrow> string" where
  "minutesToHM mins =
     (let a = max 0 (toInt32 mins);
          h = a div 60;
          m = a mod 60
      in padStart2 (showNat (nat h)) @ '':'' @ padStart2 (showNat (nat m)))"

definition calcBlock :: "string \<Rightarrow> string \<Rightarrow> string" where
  "calcBlock to ld =
     (if to = [] \<or> ld = [] then []
      else let start = hmToMinutes to; end0 = hmToMinutes ld
           in if start = 0 \<or> end0 = 0 then []
              else let end1 = (if end0 < start then end0 + 24 * 60 else end0)
                   in minutesToHM (int end1 - int start))"

definition calcDuty :: "string \<Rightarrow> string \<Rightarrow> string" where
  "calcDuty start end0 =
     (if start = [] \<or> end0 = [] then []
      else let s = hmToMinutes start; e = hmToMinutes end0
           in if s = 0 \<or> e = 0 then []
              else let e1 = (if e < s then e + 24 * 60 else e)
                   in minutesToHM (int e1 - int s))"

subsection \<open>The specification's wording of the elapsed span\<close>

definition pad2 :: "int \<Rightarrow> string" where
  \<comment> \<open>a non-negative number written with at least two digits\<close>
  "pad2 n = (if n < 10 then CHR ''0'' # showNat (nat n) else showNat (nat n))"

definition formatClock :: "int \<Rightarrow> string" where
  \<comment> \<open>negative input floored to 0; zero-padded hours and minutes, hours unbounded\<close>
  "formatClock mins = (let a = max 0 mins in pad2 (a div 60) @ '':'' @ pad2 (a mod 60))"

definition elapsed :: "string \<Rightarrow> string \<Rightarrow> string" where
  \<comment> \<open>empty if either text is empty or parses to 0; otherwise end minus start, plus 1440
     when negative, formatted\<close>
  "elapsed startText endText =
     (if startText = [] \<or> endText = []
         \<or> hmToMinutes startText = 0 \<or> hmToMinutes endText = 0 then []
      else let d = int (hmToMinutes endText) - int (hmToMinutes startText)
           in formatClock (if d < 0 then d + 1440 else d))"

section \<open>Numbers and number parsing\<close>

text \<open>
  \<^verbatim>\<open>Number(text)\<close> decides which load labels count as numeric and what the passenger
  and landing cells hold. Its results are modelled by \<open>jsnum\<close>: the three non-finite
  values and the finite numbers. A finite number is a double: every operation that can
  leave the doubles (reading a literal, adding) rounds its exact result to the nearest
  double, ties to the even significand, as \<open>double\<close> does; the rationals under \<open>Fin\<close>
  that occur are therefore exactly the values of doubles. Negative zero is identified
  with zero.
\<close>

datatype jsnum = NaN | NegInf | Fin rat | PosInf

definition isFinite :: "jsnum \<Rightarrow> bool" where
  \<comment> \<open>\<^verbatim>\<open>Number.isFinite\<close>\<close>
  "isFinite n = (case n of Fin _ \<Rightarrow> True | _ \<Rightarrow> False)"

fun bitlen :: "nat \<Rightarrow> nat" where
  \<comment> \<open>the number of binary digits\<close>
  "bitlen n = (if n = 0 then 0 else Suc (bitlen (n div 2)))"

declare bitlen.simps [simp del]

definition floorLog2 :: "rat \<Rightarrow> int" where
  \<comment> \<open>for a positive \<open>a\<close>, the exponent \<open>e\<close> with \<open>2 ^ e \<le> a < 2 ^ (e + 1)\<close>\<close>
  "floorLog2 a =
     (let (n, d) = quotient_of a;
          k = int (bitlen (nat n)) - int (bitlen (nat d))
      in if 2 powi k \<le> a then k else k - 1)"

definition roundHalfEven :: "rat \<Rightarrow> int" where
  \<comment> \<open>the nearest integer, the even one of two nearest\<close>
  "roundHalfEven m =
     (let f = \<lfloor>m\<rfloor>; r = m - of_int f
      in if r < 1 / 2 then f else if 1 / 2 < r then f + 1 else if even f then f else f + 1)"

definition double :: "rat \<Rightarrow> jsnum" where
  \<comment> \<open>the double nearest to an exact value: 53 significant bits, exponents from -1022
     (below that the spacing stays \<open>2 ^ -1074\<close>), an infinity from \<open>2 ^ 1024\<close> on\<close>
  "double q =
     (if q = 0 then Fin 0
      else let a = \<bar>q\<bar>;
               e = max (floorLog2 a) (- 1022);
               p = e - 52;
               r = of_int (roundHalfEven (a / 2 powi p)) * 2 powi p
           in if 2 ^ 1024 \<le> r then (if q < 0 then NegInf else PosInf)
              else Fin (if q < 0 then - r else r))"

fun jneg :: "jsnum \<Rightarrow> jsnum" where
  "jneg NaN = NaN"
| "jneg NegInf = PosInf"
| "jneg (Fin q) = Fin (- q)"
| "jneg PosInf = NegInf"

fun jmax :: "jsnum \<Rightarrow> jsnum \<Rightarrow> jsnum" where
  "jmax NaN _ = NaN"
| "jmax _ NaN = NaN"
| "jmax PosInf _ = PosInf"
| "jmax _ PosInf = PosInf"
| "jmax NegInf y = y"
| "jmax x NegInf = x"
| "jmax (Fin a) (Fin b) = Fin (max a b)"

definition Math_max :: "jsnum list \<Rightarrow> jsnum" where
  \<comment> \<open>\<^verbatim>\<open>Math.max(...nums)\<close>: the largest argument, \<^verbatim>\<open>-Infinity\<close> for none\<close>
  "Math_max ns = foldl jmax NegInf ns"

fun jadd :: "jsnum \<Rightarrow> jsnum \<Rightarrow> jsnum" where
  "jadd NaN _ = NaN"
| "jadd _ NaN = NaN"
| "jadd (Fin a) (Fin b) = double (a + b)"
| "jadd PosInf NegInf = NaN"
| "jadd NegInf PosInf = NaN"
| "jadd PosInf _ = PosInf"
| "jadd _ PosInf = PosInf"
| "jadd NegInf _ = NegInf"
| "jadd _ NegInf = NegInf"

definition isWhiteSpace :: "char \<Rightarrow> bool" where
  \<comment> \<open>white space and line terminators among the code units below 256\<close>
  "isWhiteSpace c =
     (c \<in> set [CHR 0x09, CHR 0x0A, CHR 0x0B, CHR 0x0C, CHR 0x0D, CHR 0x20, CHR 0xA0])"

definition trim :: "string \<Rightarrow> string" where
  "trim s = rev (dropWhile isWhiteSpace (rev (dropWhile isWhiteSpace s)))"

definition digitIn :: "nat \<Rightarrow> char \<Rightarrow> nat option" where
  \<comment> \<open>the value of a digit of the given base (2, 8 or 16)\<close>
  "digitIn b c =
     (let k = (of_char c :: nat);
          v = (if 48 \<le> k \<and> k \<le> 57 then Some (k - 48)
               else if 97 \<le> k \<and> k \<le> 102 then Some (k - 87)
               else if 65 \<le> k \<and> k \<le> 70 then Some (k - 55)
               else None)
      in case v of None \<Rightarrow> None | Some d \<Rightarrow> if d < b then Some d else None)"

definition digitsVal :: "nat \<Rightarrow> string \<Rightarrow> nat option" where
  "digitsVal b ds =
     (if ds = [] then None
      else foldl (\<lambda>acc c. case acc of None \<Rightarrow> None
                           | Some n \<Rightarrow> (case digitIn b c of None \<Rightarrow> None
                                        | Some d \<Rightarrow> Some (b * n + d)))
                 (Some 0) ds)"

definition parseNonDecimal :: "string \<Rightarrow> jsnum option" where
  \<comment> \<open>\<^verbatim>\<open>0x\<close>, \<^verbatim>\<open>0o\<close> and \<^verbatim>\<open>0b\<close> integer literals\<close>
  "parseNonDecimal s =
     (case s of
        z # x # ds \<Rightarrow>
          if z \<noteq> CHR ''0'' then None
          else if x = CHR ''x'' \<or> x = CHR ''X'' then map_option (\<lambda>n. Fin (of_nat n)) (digitsVal 16 ds)
          else if x = CHR ''o'' \<or> x = CHR ''O'' then map_option (\<lambda>n. Fin (of_nat n)) (digitsVal 8 ds)
          else if x = CHR ''b'' \<or> x = CHR ''B'' then map_option (\<lambda>n. Fin (of_nat n)) (digitsVal 2 ds)
          else None
      | _ \<Rightarrow> None)"

definition parseMantissa :: "string \<Rightarrow> rat option" where
  \<comment> \<open>digits, digits with a fraction, or a fraction alone\<close>
  "parseMantissa s =
     (let ip = takeWhile isDigit s; rest = dropWhile isDigit s
      in case rest of
           [] \<Rightarrow> if ip = [] then None else Some (of_nat (decimalVal ip))
         | c # fr \<Rightarrow>
             if c = CHR ''.'' \<and> list_all isDigit fr \<and> (ip \<noteq> [] \<or> fr \<noteq> [])
             then Some (of_nat (decimalVal ip) + of_nat (decimalVal fr) / 10 ^ length fr)
             else None)"

definition parseDigits :: "string \<Rightarrow> int option" where
  "parseDigits s = (if s \<noteq> [] \<and> list_all isDigit s then Some (int (decimalVal s)) else None)"

definition parseExponent :: "string \<Rightarrow> int option" where
  \<comment> \<open>the signed integer after \<^verbatim>\<open>e\<close>\<close>
  "parseExponent s =
     (case s of
        [] \<Rightarrow> None
      | c # t \<Rightarrow> if c = CHR ''+'' then parseDigits t
                 else if c = CHR ''-'' then map_option uminus (parseDigits t)
                 else parseDigits s)"

definition isExpChar :: "char \<Rightarrow> bool" where
  "isExpChar c = (c = CHR ''e'' \<or> c = CHR ''E'')"

definition parseUnsigned :: "string \<Rightarrow> jsnum option" where
  "parseUnsigned s =
     (if s = ''Infinity'' then Some PosInf
      else let m = takeWhile (\<lambda>c. \<not> isExpChar c) s; r = dropWhile (\<lambda>c. \<not> isExpChar c) s
           in case parseMantissa m of
                None \<Rightarrow> None
              | Some q \<Rightarrow>
                  (case r of
                     [] \<Rightarrow> Some (Fin q)
                   | _ # ex \<Rightarrow> (case parseExponent ex of
                                  None \<Rightarrow> None
                                | Some k \<Rightarrow> Some (Fin (q * 10 powi k)))))"

definition parseDecimal :: "string \<Rightarrow> jsnum option" where
  "parseDecimal s =
     (case s of
        [] \<Rightarrow> None
      | c # t \<Rightarrow> if c = CHR ''+'' then parseUnsigned t
                 else if c = CHR ''-'' then map_option jneg (parseUnsigned t)
                 else parseUnsigned s)"

definition rounded :: "jsnum \<Rightarrow> jsnum" where
  \<comment> \<open>the number value of the exact value of a literal\<close>
  "rounded n = (case n of Fin q \<Rightarrow> double q | _ \<Rightarrow> n)"

definition Number_str :: "string \<Rightarrow> jsnum" where
  \<comment> \<open>\<^verbatim>\<open>Number(s)\<close> on a string: blank text is 0, text outside the grammar is \<^verbatim>\<open>NaN\<close>\<close>
  "Number_str s =
     (let t = trim s
      in if t = [] then Fin 0
         else case parseNonDecimal t of
                Some n \<Rightarrow> rounded n
              | None \<Rightarrow> (case parseDecimal t of Some n \<Rightarrow> rounded n | None \<Rightarrow> NaN))"

section \<open>Rows\<close>

text \<open>
  A \<^verbatim>\<open>SimpleLogEntry\<close>. The passenger and landing cells hold either the empty string
  or a number; every other cell is text.
\<close>

datatype numcell = Blank | Num jsnum

record row =
  row_id :: string
  Load :: string
  T_O :: string
  L_D :: string
  FLT_T :: string
  BLK_T :: string
  FOB :: string
  F_B :: string
  PAX :: numcell
  LDG :: numcell
  F_UP :: string
  REMARKS :: string

datatype col =
  C_Load | C_TO | C_LD | C_FLT | C_BLK | C_FOB | C_FB | C_PAX | C_LDG | C_FUP | C_REMARKS

definition COLS :: "col list" where
  "COLS = [C_Load, C_TO, C_LD, C_FLT, C_BLK, C_FOB, C_FB, C_PAX, C_LDG, C_FUP, C_REMARKS]"

fun colName :: "col \<Rightarrow> string" where
  "colName C_Load = ''Load''"
| "colName C_TO = ''T/O''"
| "colName C_LD = ''L/D''"
| "colName C_FLT = ''FLT/T''"
| "colName C_BLK = ''BLK/T''"
| "colName C_FOB = ''FOB''"
| "colName C_FB = ''F/B''"
| "colName C_PAX = ''PAX''"
| "colName C_LDG = ''LDG''"
| "colName C_FUP = ''F/UP''"
| "colName C_REMARKS = ''REMARKS''"

definition FERRY_ID :: string where
  "FERRY_ID = ''ferry-row-fixed''"

definition nextLoadNumber :: "row list \<Rightarrow> jsnum" where
  "nextLoadNumber all =
     (let nums = filter isFinite
                   (map (\<lambda>x. Number_str (trim (Load x)))
                      (filter (\<lambda>x. row_id x \<noteq> FERRY_ID) all))
      in if length nums \<noteq> 0 then jadd (Math_max nums) (Fin 1) else Fin 1)"

definition clearEntry :: "row \<Rightarrow> row" where
  "clearEntry r =
     r\<lparr>T_O := [], L_D := [], FLT_T := [], BLK_T := BLK_T r, FOB := [], F_B := [],
       PAX := Blank, LDG := Blank, F_UP := [], REMARKS := []\<rparr>"

fun setCell :: "col \<Rightarrow> string \<Rightarrow> row \<Rightarrow> row" where
  \<comment> \<open>the assignment \<^verbatim>\<open>obj[key] = key === "PAX" || key === "LDG" ? (v === "" ? "" : Number(v)) : v\<close>\<close>
  "setCell C_Load v r = r\<lparr>Load := v\<rparr>"
| "setCell C_TO v r = r\<lparr>T_O := v\<rparr>"
| "setCell C_LD v r = r\<lparr>L_D := v\<rparr>"
| "setCell C_FLT v r = r\<lparr>FLT_T := v\<rparr>"
| "setCell C_BLK v r = r\<lparr>BLK_T := v\<rparr>"
| "setCell C_FOB v r = r\<lparr>FOB := v\<rparr>"
| "setCell C_FB v r = r\<lparr>F_B := v\<rparr>"
| "setCell C_PAX v r = r\<lparr>PAX := (if v = [] then Blank else Num (Number_str v))\<rparr>"
| "setCell C_LDG v r = r\<lparr>LDG := (if v = [] then Blank else Num (Number_str v))\<rparr>"
| "setCell C_FUP v r = r\<lparr>F_UP := v\<rparr>"
| "setCell C_REMARKS v r = r\<lparr>REMARKS := v\<rparr>"

definition updateEntry :: "col \<Rightarrow> string \<Rightarrow> row \<Rightarrow> row" where
  \<comment> \<open>the body of the \<^verbatim>\<open>map\<close> callback of \<^verbatim>\<open>updateRow\<close> for the row with the given id\<close>
  "updateEntry key v r =
     (let next = setCell key v r
      in if (key = C_TO \<or> key = C_LD) \<and> (T_O next \<noteq> [] \<or> L_D next \<noteq> [])
         then next\<lparr>FLT_T := calcBlock (T_O next) (L_D next)\<rparr>
         else next)"

definition fltTotal :: "row list \<Rightarrow> string" where
  \<comment> \<open>\<^verbatim>\<open>totals.flt\<close> over the visible rows\<close>
  "fltTotal visible =
     (let ferryRow = find (\<lambda>r. row_id r = FERRY_ID) visible;
          otherRows = filter (\<lambda>r. row_id r \<noteq> FERRY_ID) visible;
          totalMins = (case ferryRow of None \<Rightarrow> 0 | Some f \<Rightarrow> hmToMinutes (FLT_T f))
                      + foldl (\<lambda>a r. a + hmToMinutes (FLT_T r)) 0 otherRows
      in minutesToHM (int totalMins))"

section \<open>The sheet and its operations\<close>

text \<open>
  The component state. An operation takes the state and returns the new one. What the
  source draws from outside is an argument: \<open>u\<close> is the result of \<^verbatim>\<open>uid()\<close>, \<open>now\<close>
  that of \<^verbatim>\<open>nowHHMM()\<close>, and \<open>str\<close> is the conversion of a number to text
  (\<^verbatim>\<open>String(n)\<close>). A change handler of an input that is rendered with
  \<^verbatim>\<open>disabled={isClosed}\<close> does not run while the sheet is closed.
\<close>

record sheet =
  rows :: "row list"
  search :: string
  dutyStart :: string
  dutyEnd :: string
  pilot :: string
  dz :: string
  reg :: string
  date :: string
  fobStart :: string
  isClosed :: bool

fun findIndex :: "('a \<Rightarrow> bool) \<Rightarrow> 'a list \<Rightarrow> nat option" where
  \<comment> \<open>\<open>None\<close> stands for the result \<^verbatim>\<open>-1\<close>\<close>
  "findIndex P [] = None"
| "findIndex P (x # xs) = (if P x then Some 0 else map_option Suc (findIndex P xs))"

definition addRow :: "(jsnum \<Rightarrow> string) \<Rightarrow> string \<Rightarrow> sheet \<Rightarrow> sheet" where
  "addRow str u st =
     (if isClosed st then st
      else let r = rows st;
               idxFerry = findIndex (\<lambda>x. row_id x = FERRY_ID) r;
               hasLoads = list_ex (\<lambda>x. row_id x \<noteq> FERRY_ID) r;
               newRow = \<lparr>row_id = u, Load = str (nextLoadNumber r), T_O = [], L_D = [],
                         FLT_T = [], BLK_T = [],
                         FOB = (if hasLoads then [] else fobStart st), F_B = [],
                         PAX = Blank, LDG = Blank, F_UP = [], REMARKS = []\<rparr>
           in st\<lparr>rows := (case idxFerry of
                             Some i \<Rightarrow> take (i + 1) r @ [newRow] @ drop (i + 1) r
                           | None \<Rightarrow> r @ [newRow])\<rparr>)"

definition addFerryRow :: "sheet \<Rightarrow> sheet" where
  "addFerryRow st =
     (if isClosed st then st
      else let r = rows st
           in if list_ex (\<lambda>x. row_id x = FERRY_ID) r then st
              else let ferry = \<lparr>row_id = FERRY_ID, Load = ''FERRY'', T_O = [], L_D = [],
                                FLT_T = [], BLK_T = [], FOB = fobStart st, F_B = [],
                                PAX = Blank, LDG = Blank, F_UP = [], REMARKS = []\<rparr>
                   in st\<lparr>rows := ferry # r\<rparr>)"

definition updateRow :: "string \<Rightarrow> col \<Rightarrow> string \<Rightarrow> sheet \<Rightarrow> sheet" where
  "updateRow i key v st =
     (if isClosed st then st
      else st\<lparr>rows := map (\<lambda>r. if row_id r \<noteq> i then r else updateEntry key v r) (rows st)\<rparr>)"

definition setNow :: "string \<Rightarrow> string \<Rightarrow> col \<Rightarrow> sheet \<Rightarrow> sheet" where
  "setNow now i key st = (if isClosed st then st else updateRow i key now st)"

definition deleteRow :: "string \<Rightarrow> sheet \<Rightarrow> sheet" where
  "deleteRow i st =
     (if isClosed st then st else st\<lparr>rows := filter (\<lambda>x. row_id x \<noteq> i) (rows st)\<rparr>)"

definition clearRow :: "string \<Rightarrow> sheet \<Rightarrow> sheet" where
  "clearRow i st =
     (if isClosed st then st
      else st\<lparr>rows := map (\<lambda>r. if row_id r = i then clearEntry r else r) (rows st)\<rparr>)"

definition closeFlight :: "sheet \<Rightarrow> sheet" where
  "closeFlight st = st\<lparr>isClosed := True\<rparr>"

definition newFlight :: "sheet \<Rightarrow> sheet" where
  "newFlight st = st\<lparr>rows := [], isClosed := False\<rparr>"

subsection \<open>Header fields\<close>

definition setPilot :: "string \<Rightarrow> sheet \<Rightarrow> sheet" where
  "setPilot v st = (if isClosed st then st else st\<lparr>pilot := v\<rparr>)"

definition setDz :: "string \<Rightarrow> sheet \<Rightarrow> sheet" where
  "setDz v st = (if isClosed st then st else st\<lparr>dz := v\<rparr>)"

definition setReg :: "string \<Rightarrow> sheet \<Rightarrow> sheet" where
  "setReg v st = (if isClosed st then st else st\<lparr>reg := v\<rparr>)"

definition setDate :: "string \<Rightarrow> sheet \<Rightarrow> sheet" where
  "setDate v st = (if isClosed st then st else st\<lparr>date := v\<rparr>)"

definition setSearch :: "string \<Rightarrow> sheet \<Rightarrow> sheet" where
  "setSearch v st = (if isClosed st then st else st\<lparr>search := v\<rparr>)"

definition setDutyStart :: "string \<Rightarrow> sheet \<Rightarrow> sheet" where
  "setDutyStart v st = st\<lparr>dutyStart := v\<rparr>"

definition setDutyEnd :: "string \<Rightarrow> sheet \<Rightarrow> sheet" where
  "setDutyEnd v st = st\<lparr>dutyEnd := v\<rparr>"

definition fobSeed :: "string \<Rightarrow> row list \<Rightarrow> row list" where
  \<comment> \<open>the updater passed to \<^verbatim>\<open>setRows\<close> by the effect on \<^verbatim>\<open>fobStart\<close>; a target id
     that is \<^verbatim>\<open>null\<close> or the empty string is falsy\<close>
  "fobSeed fob prev =
     (let loads = filter (\<lambda>r. row_id r \<noteq> FERRY_ID) prev;
          ferry = find (\<lambda>r. row_id r = FERRY_ID) prev;
          targetId = (case loads of l # _ \<Rightarrow> Some (row_id l)
                      | [] \<Rightarrow> map_option row_id ferry)
      in case targetId of
           None \<Rightarrow> prev
         | Some t \<Rightarrow>
             if t = [] then prev
             else let next = map (\<lambda>r. if row_id r = t \<and> FOB r = [] then r\<lparr>FOB := fob\<rparr> else r) prev;
                      changed = list_ex (\<lambda>r. row_id r = t \<and> FOB r = []) prev
                  in if changed then next else prev)"

definition fobStartEffect :: "sheet \<Rightarrow> sheet" where
  "fobStartEffect st =
     (if fobStart st = [] then st else st\<lparr>rows := fobSeed (fobStart st) (rows st)\<rparr>)"

definition setFobStart :: "string \<Rightarrow> sheet \<Rightarrow> sheet" where
  \<comment> \<open>the starting-fuel input is never disabled; the effect runs when the value changed\<close>
  "setFobStart v st = (if v = fobStart st then st else fobStartEffect (st\<lparr>fobStart := v\<rparr>))"

definition lastFOB :: "sheet \<Rightarrow> string" where
  "lastFOB st =
     (let loads = filter (\<lambda>r. row_id r \<noteq> FERRY_ID) (rows st)
      in if length loads = 0 then [] else trim (FOB (last loads)))"

section \<open>CSV export and import\<close>

fun join :: "string \<Rightarrow> string list \<Rightarrow> string" where
  \<comment> \<open>\<^verbatim>\<open>xs.join(sep)\<close>\<close>
  "join sep [] = []"
| "join sep [x] = x"
| "join sep (x # y # ys) = x @ sep @ join sep (y # ys)"

fun consHead :: "char \<Rightarrow> string list \<Rightarrow> string list" where
  "consHead c [] = [[c]]"
| "consHead c (l # ls) = (c # l) # ls"

fun splitOn :: "char \<Rightarrow> string \<Rightarrow> string list" where
  \<comment> \<open>\<^verbatim>\<open>s.split(",")\<close>\<close>
  "splitOn sep [] = [[]]"
| "splitOn sep (c # cs) = (if c = sep then [] # splitOn sep cs else consHead c (splitOn sep cs))"

fun splitLines :: "string \<Rightarrow> string list" where
  \<comment> \<open>\<^verbatim>\<open>text.split(/\r?\n/)\<close>\<close>
  "splitLines [] = [[]]"
| "splitLines [c] = (if c = CHR 0x0A then [[], []] else [[c]])"
| "splitLines (c # d # cs) =
     (if c = CHR 0x0A then [] # splitLines (d # cs)
      else if c = CHR 0x0D \<and> d = CHR 0x0A then [] # splitLines cs
      else consHead c (splitLines (d # cs)))"

definition cellAt :: "'a list \<Rightarrow> nat \<Rightarrow> 'a option" where
  \<comment> \<open>\<^verbatim>\<open>xs[i]\<close>, \<open>None\<close> for \<^verbatim>\<open>undefined\<close>\<close>
  "cellAt xs i = (if i < length xs then Some (xs ! i) else None)"

definition cellText :: "(jsnum \<Rightarrow> string) \<Rightarrow> row \<Rightarrow> col \<Rightarrow> string" where
  \<comment> \<open>a cell as \<^verbatim>\<open>Array.prototype.toString\<close> writes it\<close>
  "cellText str r c =
     (case c of
        C_Load \<Rightarrow> Load r | C_TO \<Rightarrow> T_O r | C_LD \<Rightarrow> L_D r | C_FLT \<Rightarrow> FLT_T r
      | C_BLK \<Rightarrow> BLK_T r | C_FOB \<Rightarrow> FOB r | C_FB \<Rightarrow> F_B r
      | C_PAX \<Rightarrow> (case PAX r of Blank \<Rightarrow> [] | Num n \<Rightarrow> str n)
      | C_LDG \<Rightarrow> (case LDG r of Blank \<Rightarrow> [] | Num n \<Rightarrow> str n)
      | C_FUP \<Rightarrow> F_UP r | C_REMARKS \<Rightarrow> REMARKS r)"

definition rowLine :: "(jsnum \<Rightarrow> string) \<Rightarrow> row \<Rightarrow> string" where
  \<comment> \<open>the line of a row: \<^verbatim>\<open>COLS.map((c) => row[c] ?? "").toString()\<close>\<close>
  "rowLine str r = join '','' (map (cellText str r) COLS)"

definition exportCSV :: "(jsnum \<Rightarrow> string) \<Rightarrow> row list \<Rightarrow> string" where
  \<comment> \<open>the text of the downloaded file\<close>
  "exportCSV str rs =
     (let header = join '','' (map colName COLS);
          body = join [CHR 0x0A] (map (rowLine str) rs)
      in header @ [CHR 0x0A] @ body)"

definition headerOk :: "string list \<Rightarrow> bool" where
  \<comment> \<open>\<^verbatim>\<open>COLS.every((c, i) => (header[i] ? header[i].trim() : "") === c)\<close>\<close>
  "headerOk header =
     list_all (\<lambda>(i, c). (case cellAt header i of
                            None \<Rightarrow> []
                          | Some h \<Rightarrow> if h = [] then [] else trim h) = colName c)
              (enumerate 0 COLS)"

definition importLine :: "string \<Rightarrow> string \<Rightarrow> row" where
  "importLine u line =
     (let cells = splitOn (CHR '','') line;
          obj0 = \<lparr>row_id = u, Load = [], T_O = [], L_D = [], FLT_T = [], BLK_T = [],
                  FOB = [], F_B = [], PAX = Blank, LDG = Blank, F_UP = [], REMARKS = []\<rparr>;
          obj = foldl (\<lambda>ob (i, c). setCell c (case cellAt cells i of None \<Rightarrow> [] | Some v \<Rightarrow> v) ob)
                  obj0 (enumerate 0 COLS);
          span = calcBlock (T_O obj) (L_D obj);
          obj1 = (if FLT_T obj = [] then obj\<lparr>FLT_T := span\<rparr> else obj)
      in if Load obj1 = ''FERRY'' then obj1\<lparr>row_id := FERRY_ID\<rparr> else obj1)"

definition csvLines :: "string \<Rightarrow> string list" where
  \<comment> \<open>\<^verbatim>\<open>text.split(/\r?\n/).filter(Boolean)\<close>\<close>
  "csvLines txt = filter (\<lambda>l. l \<noteq> []) (splitLines txt)"

definition headerMismatch :: string where
  "headerMismatch = ''CSV header mismatch. Expected: '' @ join '', '' (map colName COLS)"

definition importCSV :: "(nat \<Rightarrow> string) \<Rightarrow> string \<Rightarrow> sheet \<Rightarrow> string option \<times> sheet" where
  \<comment> \<open>the \<^verbatim>\<open>onload\<close> handler: the alert shown, if any, and the new state; \<open>uid k\<close> is the
     identifier drawn for data line \<open>k\<close>\<close>
  "importCSV uid txt st =
     (let lines = csvLines txt
      in if length lines < 2 then (None, st)
         else let header = splitOn (CHR '','') (hd lines)
              in if \<not> headerOk header then (Some headerMismatch, st)
                 else (None, st\<lparr>rows := map (\<lambda>(k, line). importLine (uid k) line)
                                          (enumerate 0 (tl lines))\<rparr>))"

section \<open>The specification's wording of the row functions, and sample data\<close>

definition numericLabel :: "row \<Rightarrow> rat option" where
  \<comment> \<open>the load label parsed as a number; \<open>None\<close> for a non-numeric label\<close>
  "numericLabel r = (case Number_str (trim (Load r)) of Fin q \<Rightarrow> Some q | _ \<Rightarrow> None)"

definition numericLoads :: "row list \<Rightarrow> rat list" where
  \<comment> \<open>the numbers of the rows other than the ferry row\<close>
  "numericLoads rs = List.map_filter numericLabel (filter (\<lambda>r. row_id r \<noteq> FERRY_ID) rs)"

definition ferryInvariant :: "row list \<Rightarrow> bool" where
  \<comment> \<open>at most one row has the ferry identifier, and such a row is the first one\<close>
  "ferryInvariant rs =
     (length (filter (\<lambda>r. row_id r = FERRY_ID) rs) \<le> 1
      \<and> (\<forall>k < length rs. row_id (rs ! k) = FERRY_ID \<longrightarrow> k = 0))"

definition seedTarget :: "row list \<Rightarrow> nat option" where
  \<comment> \<open>the position of the row the starting fuel goes to: the first row other than the
     ferry row if there is one, else the ferry row if present, else none\<close>
  "seedTarget rs =
     (case findIndex (\<lambda>r. row_id r \<noteq> FERRY_ID) rs of
        Some k \<Rightarrow> Some k
      | None \<Rightarrow> findIndex (\<lambda>r. row_id r = FERRY_ID) rs)"

definition headerCell :: "string list \<Rightarrow> nat \<Rightarrow> string" where
  \<comment> \<open>a cell of the header line without its surrounding white space; empty when the
     line has no such cell\<close>
  "headerCell header i = (if i < length header then trim (header ! i) else [])"

definition entry :: "string \<Rightarrow> string \<Rightarrow> row" where
  \<comment> \<open>an entry with the given id and load label and every other cell empty, as the
     self-tests and \<^verbatim>\<open>addRow\<close> build them\<close>
  "entry i l = \<lparr>row_id = i, Load = l, T_O = [], L_D = [], FLT_T = [], BLK_T = [],
                FOB = [], F_B = [], PAX = Blank, LDG = Blank, F_UP = [], REMARKS = []\<rparr>"

definition initialSheet :: sheet where
  \<comment> \<open>the initial values of the component's state\<close>
  "initialSheet = \<lparr>rows = [], search = [], dutyStart = [], dutyEnd = [], pilot = [],
                    dz = [], reg = [], date = [], fobStart = [], isClosed = False\<rparr>"

definition decimalText :: "jsnum \<Rightarrow> string" where
  \<comment> \<open>the decimal text of the integer part; on the non-finite values and on the integers
     of magnitude below \<open>10 ^ 21\<close> this is \<^verbatim>\<open>String(n)\<close>. It is the conversion used in
     the closed examples, whose numbers are such integers\<close>
  "decimalText n =
     (case n of
        NaN \<Rightarrow> ''NaN''
      | PosInf \<Rightarrow> ''Infinity''
      | NegInf \<Rightarrow> ''-Infinity''
      | Fin q \<Rightarrow> if q < 0 then CHR ''-'' # showNat (nat \<lfloor>- q\<rfloor>) else showNat (nat \<lfloor>q\<rfloor>))"

definition sampleUid :: "nat \<Rightarrow> string" where
  \<comment> \<open>identifiers for the closed examples: eight characters, as \<^verbatim>\<open>uid()\<close> draws them\<close>
  "sampleUid k = ''id00000'' @ showNat k"

definition twoFerryCsv :: string where
  "twoFerryCsv = ''Load,T/O,L/D,FLT/T,BLK/T,FOB,F/B,PAX,LDG,F/UP,REMARKS'' @ [CHR 0x0A]
      @ ''FERRY,08:00,08:20,,,,,,,,'' @ [CHR 0x0A] @ ''FERRY,09:00,09:30,,,,,,,,''"

definition lateFerryCsv :: string where
  "lateFerryCsv = ''Load,T/O,L/D,FLT/T,BLK/T,FOB,F/B,PAX,LDG,F/UP,REMARKS'' @ [CHR 0x0A]
      @ ''1,08:00,08:20,,,,,,,,'' @ [CHR 0x0A] @ ''FERRY,09:00,09:30,,,,,,,,''"

definition clockedRows :: "row list" where
  \<comment> \<open>one load row with both clock times and a flight time that was emptied by hand\<close>
  "clockedRows = [(entry ''a'' ''1'')\<lparr>T_O := ''10:10'', L_D := ''11:40''\<rparr>]"

definition sampleRows :: "row list" where
  \<comment> \<open>a ferry row and a load row with a passenger count\<close>
  "sampleRows =
     [(entry FERRY_ID ''FERRY'')\<lparr>T_O := ''08:00'', L_D := ''08:20'', FLT_T := ''00:20''\<rparr>,
      (entry ''a'' ''1'')\<lparr>BLK_T := ''00:30'', PAX := Num (Fin 3), REMARKS := ''ok''\<rparr>]"

definition paddedHeaderCsv :: string where
  \<comment> \<open>a file whose first cell of the header line starts with a space\<close>
  "paddedHeaderCsv = '' Load,T/O,L/D,FLT/T,BLK/T,FOB,F/B,PAX,LDG,F/UP,REMARKS'' @ [CHR 0x0A]
      @ ''7,,,,,,,,,,''"

definition badHeaderCsv :: string where
  \<comment> \<open>a file whose header line is not the expected one\<close>
  "badHeaderCsv = ''Load;T/O'' @ [CHR 0x0A] @ ''1''"

definition reimported :: "string \<Rightarrow> row \<Rightarrow> row" where
  \<comment> \<open>a row as it comes back from its exported line: a new identifier, the ferry
     identifier for the label FERRY, and an empty flight time filled in\<close>
  "reimported u r =
     r\<lparr>row_id := (if Load r = ''FERRY'' then FERRY_ID else u),
       FLT_T := (if FLT_T r = [] then calcBlock (T_O r) (L_D r) else FLT_T r)\<rparr>"

definition cleanText :: "string \<Rightarrow> bool" where
  \<comment> \<open>no comma and no newline character (line feed, carriage return)\<close>
  "cleanText s = (CHR '','' \<notin> set s \<and> CHR 0x0A \<notin> set s \<and> CHR 0x0D \<notin> set s)"

section \<open>Time arithmetic: properties\<close>

lemma digitVal_le_9: "isDigit c \<Longrightarrow> digitVal c \<le> 9"
  by (auto simp: isDigit_def digitVal_def)

lemma match_hm_shape:
  assumes "match_hm s = Some (h, mi)"
  shows "(\<exists>a m1 m2. h = [a] \<and> mi = [m1, m2] \<and> s = [a, CHR '':'', m1, m2]
            \<and> isDigit a \<and> isDigit m1 \<and> isDigit m2)
       \<or> (\<exists>a b m1 m2. h = [a, b] \<and> mi = [m1, m2] \<and> s = [a, b, CHR '':'', m1, m2]
            \<and> isDigit a \<and> isDigit b \<and> isDigit m1 \<and> isDigit m2)"
  using assms by (induction s rule: match_hm.induct) (auto split: if_splits)

lemma hmToMinutes_le: "hmToMinutes s \<le> 6039"
proof (cases "s = [] \<or> match_hm s = None")
  case True
  then show ?thesis by (auto simp: hmToMinutes_def)
next
  case False
  then obtain h mi where m: "match_hm s = Some (h, mi)" and ne: "s \<noteq> []" by auto
  from match_hm_shape[OF m] show ?thesis
  proof (elim disjE exE conjE)
    fix a m1 m2
    assume "h = [a]" "mi = [m1, m2]" "isDigit a" "isDigit m1" "isDigit m2"
    then show ?thesis
      using m ne digitVal_le_9[of a] digitVal_le_9[of m1] digitVal_le_9[of m2]
      by (simp add: hmToMinutes_def decimalVal_def)
  next
    fix a b m1 m2
    assume "h = [a, b]" "mi = [m1, m2]" "isDigit a" "isDigit b" "isDigit m1" "isDigit m2"
    then show ?thesis
      using m ne digitVal_le_9[of a] digitVal_le_9[of b]
        digitVal_le_9[of m1] digitVal_le_9[of m2]
      by (simp add: hmToMinutes_def decimalVal_def)
  qed
qed

lemma toInt32_small: "- (2 ^ 31) \<le> x \<Longrightarrow> x < 2 ^ 31 \<Longrightarrow> toInt32 x = x"
  by (simp add: toInt32_def)

lemma length_showNat_lt10: "n < 10 \<Longrightarrow> length (showNat n) = 1"
  by simp

lemma length_showNat_ge10: "10 \<le> n \<Longrightarrow> 2 \<le> length (showNat n)"
proof (induction n rule: showNat.induct)
  case (1 n)
  have "0 < n div 10" using "1.prems" by simp
  then have "1 \<le> length (showNat (n div 10))"
    by (cases "n div 10 < 10") (use "1.IH" in \<open>simp_all del: showNat.simps add: length_showNat_lt10\<close>, simp)
  then show ?case using "1.prems" by (subst showNat.simps) simp
qed

lemma padStart2_showNat: "padStart2 (showNat n) = pad2 (int n)"
proof (cases "n < 10")
  case True
  then show ?thesis by (simp add: padStart2_def pad2_def)
next
  case False
  then have "2 \<le> length (showNat n)" by (simp add: length_showNat_ge10)
  then show ?thesis using False by (simp add: padStart2_def pad2_def del: showNat.simps)
qed

lemma minutesToHM_formatClock:
  assumes "- (2 ^ 31) \<le> x" "x < 2 ^ 31"
  shows "minutesToHM x = formatClock x"
proof -
  have "toInt32 x = x" using assms by (rule toInt32_small)
  then show ?thesis
    by (simp add: minutesToHM_def formatClock_def Let_def padStart2_showNat max_def
             del: showNat.simps)
qed

lemma calcBlock_refines_elapsed: "calcBlock s e = elapsed s e"
proof (cases "s = [] \<or> e = [] \<or> hmToMinutes s = 0 \<or> hmToMinutes e = 0")
  case True
  then show ?thesis by (auto simp: calcBlock_def elapsed_def Let_def)
next
  case False
  define d where "d = int (hmToMinutes e) - int (hmToMinutes s)"
  define d' where "d' = (if d < 0 then d + 1440 else d)"
  have b: "hmToMinutes s \<le> 6039" "hmToMinutes e \<le> 6039" by (rule hmToMinutes_le)+
  then have r: "- (2 ^ 31) \<le> d'" "d' < 2 ^ 31" by (auto simp: d_def d'_def)
  have "calcBlock s e = minutesToHM d'"
  proof -
    have "int (if hmToMinutes e < hmToMinutes s then hmToMinutes e + 24 * 60 else hmToMinutes e)
            - int (hmToMinutes s) = d'"
      by (auto simp: d_def d'_def)
    then show ?thesis using False by (simp add: calcBlock_def Let_def)
  qed
  also have "\<dots> = formatClock d'" using r by (rule minutesToHM_formatClock)
  also have "\<dots> = elapsed s e"
    using False by (simp add: elapsed_def Let_def d_def d'_def)
  finally show ?thesis .
qed

text \<open>
  C3. For all start and end texts, \<open>calcBlock\<close> (the specification's \<open>elapsed\<close>) returns the
  empty text if either input is empty or parses to 0; otherwise it returns end minus
  start in minutes, with 1440 added when the difference is negative, formatted with
  zero-padded hours and minutes. In particular the span from 10:10 to 11:40 is 01:30 and
  the span from 23:30 to 00:10 is 00:40. The function is total: it returns a text on
  every pair of texts.
\<close>

theorem calcBlock_elapsed:
  "calcBlock s e = elapsed s e
   \<and> calcBlock ''10:10'' ''11:40'' = ''01:30''
   \<and> calcBlock ''23:30'' ''00:10'' = ''00:40''"
proof (intro conjI)
  show "calcBlock s e = elapsed s e" by (rule calcBlock_refines_elapsed)
  show "calcBlock ''10:10'' ''11:40'' = ''01:30''" by code_simp
  show "calcBlock ''23:30'' ''00:10'' = ''00:40''" by code_simp
qed

theorem calcBlock_elapsed_witness:
  "calcBlock ''09:00'' ''09:45'' = elapsed ''09:00'' ''09:45''
   \<and> elapsed ''09:00'' ''09:45'' = ''00:45''
   \<and> calcBlock [] ''09:45'' = []"
proof -
  have "elapsed ''09:00'' ''09:45'' = ''00:45''" by code_simp
  moreover have "calcBlock [] ''09:45'' = []" by (simp add: calcBlock_def)
  ultimately show ?thesis
    using calcBlock_elapsed [of "''09:00''" "''09:45''"] by simp
qed

text \<open>
  C10. For every text of the shape one or two digits, colon, exactly two digits,
  \<open>hmToMinutes\<close> returns hours times 60 plus minutes, whatever the digits are: no range
  check is made on the hour or the minute part. So \<open>10:99\<close> parses to 699, and the
  elapsed span and the flight-time total take such a text as a valid time.
\<close>

theorem hmToMinutes_no_range_check:
  assumes "length hs = 1 \<or> length hs = 2" and "length ms = 2"
    and "list_all isDigit hs" and "list_all isDigit ms"
  shows "hmToMinutes (hs @ CHR '':'' # ms) = decimalVal hs * 60 + decimalVal ms
         \<and> hmToMinutes ''10:99'' = 699
         \<and> calcBlock ''10:99'' ''12:00'' = ''00:21''
         \<and> fltTotal [(entry ''a'' ''1'')\<lparr>FLT_T := ''10:99''\<rparr>] = ''11:39''"
proof (intro conjI)
  obtain m1 m2 where ms: "ms = [m1, m2]"
    using assms(2) by (cases ms; cases "tl ms") auto
  from assms(1) show "hmToMinutes (hs @ CHR '':'' # ms) = decimalVal hs * 60 + decimalVal ms"
  proof
    assume "length hs = 1"
    then obtain a where "hs = [a]" by (cases hs) auto
    then show ?thesis using assms(3,4) ms by (simp add: hmToMinutes_def)
  next
    assume "length hs = 2"
    then obtain a b where "hs = [a, b]" by (cases hs; cases "tl hs") auto
    then show ?thesis using assms(3,4) ms by (simp add: hmToMinutes_def)
  qed
  show "hmToMinutes ''10:99'' = 699"
    by (simp add: hmToMinutes_def decimalVal_def digitVal_def isDigit_def)
  show "calcBlock ''10:99'' ''12:00'' = ''00:21''" by code_simp
  show "fltTotal [(entry ''a'' ''1'')\<lparr>FLT_T := ''10:99''\<rparr>] = ''11:39''" by code_simp
qed

theorem hmToMinutes_no_range_check_witness:
  "hmToMinutes ''25:75'' = 1575"
proof -
  have v: "decimalVal ''25'' * 60 + decimalVal ''75'' = 1575"
    by (simp add: decimalVal_def digitVal_def)
  have d: "list_all isDigit ''25''" "list_all isDigit ''75''" by (simp_all add: isDigit_def)
  have l: "length ''25'' = 1 \<or> length ''25'' = 2" "length ''75'' = 2" by simp_all
  from hmToMinutes_no_range_check [OF l d] v show ?thesis by simp
qed

section \<open>Rows: properties\<close>

text \<open>
  C9. For every row, \<open>clearEntry\<close> returns a row whose id, load and block time are those
  of the input row and whose every other field (take-off, landing, flight time, fuel on
  board, fuel burned, passengers, landings, follow-up, remarks) is empty.
\<close>

theorem clearEntry_fields:
  "row_id (clearEntry r) = row_id r \<and> Load (clearEntry r) = Load r
   \<and> BLK_T (clearEntry r) = BLK_T r
   \<and> T_O (clearEntry r) = [] \<and> L_D (clearEntry r) = [] \<and> FLT_T (clearEntry r) = []
   \<and> FOB (clearEntry r) = [] \<and> F_B (clearEntry r) = []
   \<and> PAX (clearEntry r) = Blank \<and> LDG (clearEntry r) = Blank
   \<and> F_UP (clearEntry r) = [] \<and> REMARKS (clearEntry r) = []"
  by (simp add: clearEntry_def)

theorem clearEntry_fields_witness:
  "clearEntry ((entry ''a'' ''3'')\<lparr>T_O := ''10:10'', L_D := ''11:40'', FLT_T := ''01:30'',
       BLK_T := ''01:45'', FOB := ''500'', PAX := Num (Fin 4), REMARKS := ''ok''\<rparr>)
   = (entry ''a'' ''3'')\<lparr>BLK_T := ''01:45''\<rparr>"
  using clearEntry_fields [of "(entry ''a'' ''3'')\<lparr>T_O := ''10:10'', L_D := ''11:40'',
       FLT_T := ''01:30'', BLK_T := ''01:45'', FOB := ''500'', PAX := Num (Fin 4),
       REMARKS := ''ok''\<rparr>"]
  by (simp add: entry_def clearEntry_def)

text \<open>
  Rounding to a double leaves every integer of magnitude up to \<open>2 ^ 53\<close> as it is.
\<close>

lemma bitlen_le: "n < 2 ^ b \<Longrightarrow> bitlen n \<le> b"
proof (induction n arbitrary: b rule: bitlen.induct)
  case (1 n)
  show ?case
  proof (cases "n = 0")
    case True
    then show ?thesis by (simp add: bitlen.simps)
  next
    case False
    then obtain b' where b: "b = Suc b'" using "1.prems" by (cases b) auto
    then have "n div 2 < 2 ^ b'" using "1.prems" by auto
    then have "bitlen (n div 2) \<le> b'" using "1.IH"[OF False] by simp
    then show ?thesis using False b by (subst bitlen.simps) simp
  qed
qed

lemma bitlen_lower: "0 < n \<Longrightarrow> 2 ^ (bitlen n - 1) \<le> n"
proof (induction n rule: bitlen.induct)
  case (1 n)
  show ?case
  proof (cases "n div 2 = 0")
    case True
    then have "bitlen (n div 2) = 0" by (simp add: bitlen.simps)
    then have "bitlen n = 1" using "1.prems" by (subst bitlen.simps) simp
    then show ?thesis using "1.prems" by simp
  next
    case False
    then have ih: "2 ^ (bitlen (n div 2) - 1) \<le> n div 2" using "1.IH" "1.prems" by simp
    have pos: "0 < bitlen (n div 2)" using False by (subst bitlen.simps) simp
    have "bitlen n = Suc (bitlen (n div 2))" using "1.prems" by (subst bitlen.simps) simp
    then have "2 ^ (bitlen n - 1) = 2 * 2 ^ (bitlen (n div 2) - 1)"
      using pos by (cases "bitlen (n div 2)") simp_all
    also have "\<dots> \<le> 2 * (n div 2)" using ih by simp
    also have "\<dots> \<le> n" by simp
    finally show ?thesis .
  qed
qed

lemma bitlen_Suc_0 [simp]: "bitlen (Suc 0) = 1"
  by (simp add: bitlen.simps[of "Suc 0"] bitlen.simps[of 0])

lemma bitlen_pos: "0 < n \<Longrightarrow> 0 < bitlen n"
  by (subst bitlen.simps) simp

lemma roundHalfEven_int [simp]: "roundHalfEven (of_int z) = z"
  by (simp add: roundHalfEven_def)

lemma floorLog2_nat:
  assumes "0 < j"
  shows "floorLog2 (of_nat j) = int (bitlen j) - 1"
proof -
  have q: "quotient_of (of_nat j :: rat) = (int j, 1)"
    using quotient_of_int[of "int j"] by simp
  have "(2::rat) powi (int (bitlen j) - 1) = 2 ^ (bitlen j - 1)"
    using bitlen_pos[OF assms] by (simp add: power_int_def nat_diff_distrib' of_nat_diff)
  also have "\<dots> \<le> of_nat j"
    using bitlen_lower[OF assms] by (metis of_nat_le_iff of_nat_numeral of_nat_power)
  finally show ?thesis
    by (simp add: floorLog2_def q Let_def)
qed

lemma double_nat:
  assumes "j \<le> 2 ^ 53"
  shows "double (of_nat j) = Fin (of_nat j)"
proof (cases "j = 0")
  case True
  then show ?thesis by (simp add: double_def)
next
  case False
  then have pos: "0 < j" by simp
  define e where "e = int (bitlen j) - 1"
  have fl: "floorLog2 (of_nat j) = e" unfolding e_def by (rule floorLog2_nat[OF pos])
  have e0: "0 \<le> e" using bitlen_pos[OF pos] by (simp add: e_def)
  have "j < 2 ^ 54" using assms by simp
  then have e53: "e \<le> 53" using bitlen_le[of j 54] by (simp add: e_def)
  have r: "of_int (roundHalfEven (of_nat j / 2 powi (e - 52))) * (2::rat) powi (e - 52) = of_nat j"
  proof (cases "e \<le> 52")
    case True
    define t where "t = nat (52 - e)"
    have p: "(2::rat) powi (e - 52) = 1 / 2 ^ t"
      using True by (simp add: t_def power_int_def field_simps)
    have "of_nat j / (2::rat) powi (e - 52) = of_int (int j * 2 ^ t)" by (simp add: p)
    then have "roundHalfEven (of_nat j / 2 powi (e - 52)) = int j * 2 ^ t"
      by (simp only: roundHalfEven_int)
    then show ?thesis by (simp add: p)
  next
    case False
    then have e: "e = 53" using e53 by simp
    then have "2 ^ 53 \<le> j" using bitlen_lower[OF pos] by (simp add: e_def nat_diff_distrib')
    then have j: "j = 2 ^ 53" using assms by simp
    have "of_nat j / (2::rat) powi (e - 52) = of_int (2 ^ 52)" by (simp add: j e)
    then have "roundHalfEven (of_nat j / 2 powi (e - 52)) = 2 ^ 52"
      by (simp only: roundHalfEven_int)
    then show ?thesis by (simp add: j e)
  qed
  have "(of_nat j :: rat) \<le> 2 ^ 53" using assms by (metis of_nat_le_iff of_nat_numeral of_nat_power)
  moreover have "(2::rat) ^ 53 < 2 ^ 1024" by (rule power_strict_increasing) simp_all
  ultimately have lt: "\<not> (2::rat) ^ 1024 \<le> of_nat j" by linarith
  show ?thesis
    using False e0 r lt by (simp add: double_def fl Let_def max_def)
qed


lemma double_int:
  assumes "\<bar>k\<bar> \<le> 2 ^ 53"
  shows "double (of_int k) = Fin (of_int k)"
proof (cases "0 \<le> k")
  case True
  then have "nat k \<le> 2 ^ 53" using assms by (simp add: nat_le_iff)
  from double_nat[OF this] True show ?thesis by simp
next
  case False
  then have n: "nat (- k) \<le> 2 ^ 53" using assms by (simp add: nat_le_iff)
  have d: "double (- q) = jneg (double q)" for q
    by (simp add: double_def Let_def)
  have "double (of_int k) = jneg (double (of_nat (nat (- k))))"
    using False d[of "of_nat (nat (- k))"] by simp
  then show ?thesis using double_nat[OF n] False by simp
qed

lemma double_numeral [simp]:
  "numeral w \<le> (2 ^ 53 :: int) \<Longrightarrow> double (numeral w) = Fin (numeral w)"
  using double_int[of "numeral w"] by simp

lemma double_1 [simp]: "double 1 = Fin 1"
  using double_int[of 1] by simp

lemma foldl_jmax_Fin: "foldl jmax (Fin a) (map Fin qs) = Fin (Max (insert a (set qs)))"
proof (induction qs arbitrary: a)
  case Nil
  then show ?case by simp
next
  case (Cons q qs)
  have "Max (insert (max a q) (set qs)) = Max (insert a (insert q (set qs)))"
    by (cases "set qs = {}") (simp_all add: max.assoc)
  then show ?case using Cons.IH[of "max a q"] by simp
qed

lemma Math_max_Fin: "qs \<noteq> [] \<Longrightarrow> Math_max (map Fin qs) = Fin (Max (set qs))"
  by (cases qs) (simp_all add: Math_max_def foldl_jmax_Fin)

lemma finite_loads:
  "filter isFinite (map (\<lambda>x. Number_str (trim (Load x))) xs)
     = map Fin (List.map_filter numericLabel xs)"
  by (induction xs)
     (auto simp: isFinite_def numericLabel_def List.map_filter_simps split: jsnum.splits)

lemma double_above_2_53: "double 9007199254740993 = Fin 9007199254740992"
proof -
  have "\<lfloor>(9007199254740993::rat) / 2\<rfloor> = 4503599627370496"
    by (rule floor_unique) simp_all
  then show ?thesis
    by (simp add: double_def floorLog2_def roundHalfEven_def bitlen.simps Let_def)
qed

lemmas Number_defs = Number_str_def trim_def isWhiteSpace_def parseNonDecimal_def
  parseDecimal_def parseUnsigned_def parseMantissa_def parseExponent_def parseDigits_def
  isExpChar_def isDigit_def decimalVal_def digitVal_def rounded_def

lemmas nextLoad_defs = nextLoadNumber_def numericLoads_def numericLabel_def
  List.map_filter_simps entry_def FERRY_ID_def Math_max_def isFinite_def

lemma nextLoadNumber_double:
  "nextLoadNumber rs =
     (if numericLoads rs = [] then Fin 1 else double (Max (set (numericLoads rs)) + 1))"
  by (simp add: nextLoadNumber_def numericLoads_def finite_loads Math_max_Fin Let_def)

text \<open>
  C5, as amended. For every row list, the empty one and rows with non-numeric load labels
  included, \<open>nextLoadNumber\<close> leaves out the row with the ferry identifier, parses the
  load label of each remaining row as a number, drops the labels whose parse is not
  finite, and returns the maximum plus 1 as a double (the sum rounded to the nearest
  double), or 1 when no numeric label is left. The result is exactly the maximum plus 1
  whenever the maximum is an integer \<open>k\<close> with \<open>\<bar>k + 1\<bar> \<le> 2 ^ 53\<close>. It returns a
  number on every list; on the four lists of the self-tests it returns 1, 3, 1 and 8.
\<close>

theorem nextLoadNumber_max_plus_one_double:
  "nextLoadNumber rs =
     (if numericLoads rs = [] then Fin 1 else double (Max (set (numericLoads rs)) + 1))
   \<and> (numericLoads rs \<noteq> []
        \<and> (\<exists>k. Max (set (numericLoads rs)) = of_int k \<and> \<bar>k + 1\<bar> \<le> 2 ^ 53)
       \<longrightarrow> nextLoadNumber rs = Fin (Max (set (numericLoads rs)) + 1))
   \<and> nextLoadNumber [] = Fin 1
   \<and> nextLoadNumber [entry ''a'' ''1'', entry ''b'' ''2''] = Fin 3
   \<and> nextLoadNumber [entry FERRY_ID ''FERRY''] = Fin 1
   \<and> nextLoadNumber [entry ''x'' ''FERRY'', entry ''y'' ''7''] = Fin 8"
proof (intro conjI impI)
  show "nextLoadNumber rs =
     (if numericLoads rs = [] then Fin 1 else double (Max (set (numericLoads rs)) + 1))"
    by (rule nextLoadNumber_double)
next
  assume a: "numericLoads rs \<noteq> []
        \<and> (\<exists>k. Max (set (numericLoads rs)) = of_int k \<and> \<bar>k + 1\<bar> \<le> 2 ^ 53)"
  then obtain k where k: "Max (set (numericLoads rs)) = of_int k" "\<bar>k + 1\<bar> \<le> 2 ^ 53"
    by blast
  have "double (of_int (k + 1)) = Fin (of_int (k + 1))" using k(2) by (rule double_int)
  then show "nextLoadNumber rs = Fin (Max (set (numericLoads rs)) + 1)"
    using a k(1) by (simp add: nextLoadNumber_double)
next
  show "nextLoadNumber [] = Fin 1"
    by (simp add: nextLoadNumber_def)
  show "nextLoadNumber [entry ''a'' ''1'', entry ''b'' ''2''] = Fin 3"
    by (simp add: nextLoad_defs Number_defs)
  show "nextLoadNumber [entry FERRY_ID ''FERRY''] = Fin 1"
    by (simp add: nextLoad_defs)
  show "nextLoadNumber [entry ''x'' ''FERRY'', entry ''y'' ''7''] = Fin 8"
    by (simp add: nextLoad_defs Number_defs)
qed

theorem nextLoadNumber_max_plus_one_double_witness:
  "numericLoads [entry ''p'' ''4'', entry ''q'' ''abc'', entry FERRY_ID ''99'', entry ''s'' '' 12 '']
     = [4, 12]
   \<and> nextLoadNumber [entry ''p'' ''4'', entry ''q'' ''abc'', entry FERRY_ID ''99'',
        entry ''s'' '' 12 ''] = Fin 13"
proof -
  have n: "numericLoads [entry ''p'' ''4'', entry ''q'' ''abc'', entry FERRY_ID ''99'',
             entry ''s'' '' 12 ''] = [4, 12]"
    by (simp add: nextLoad_defs Number_defs)
  have k: "\<exists>k. Max (set [4, 12 :: rat]) = of_int k \<and> \<bar>k + 1\<bar> \<le> 2 ^ 53"
    by (rule exI[of _ 12]) simp
  show ?thesis
    using nextLoadNumber_max_plus_one_double [of "[entry ''p'' ''4'', entry ''q'' ''abc'',
      entry FERRY_ID ''99'', entry ''s'' '' 12 '']"] k
    by (simp add: n)
qed

text \<open>
  C5 as stated fails where the sum leaves the doubles: for a row labelled
  9007199254740992 (a label that import accepts) the maximum is \<open>2 ^ 53\<close> and the
  function returns \<open>2 ^ 53\<close> again, not the maximum plus 1.
\<close>

theorem nextLoadNumber_beyond_2_53:
  "numericLoads [entry ''a'' ''9007199254740992''] = [9007199254740992]
   \<and> nextLoadNumber [entry ''a'' ''9007199254740992''] = Fin 9007199254740992
   \<and> nextLoadNumber [entry ''a'' ''9007199254740992'']
       \<noteq> Fin (Max (set (numericLoads [entry ''a'' ''9007199254740992''])) + 1)"
proof -
  have n: "numericLoads [entry ''a'' ''9007199254740992''] = [9007199254740992]"
    by (simp add: nextLoad_defs Number_defs)
  have v: "nextLoadNumber [entry ''a'' ''9007199254740992''] = Fin 9007199254740992"
    by (simp add: nextLoadNumber_double n double_above_2_53)
  show ?thesis by (simp add: n v)
qed

section \<open>Updating a row\<close>

lemma row_id_setCell [simp]: "row_id (setCell key v r) = row_id r"
  by (cases key) simp_all

lemma BLK_setCell: "key \<noteq> C_BLK \<Longrightarrow> BLK_T (setCell key v r) = BLK_T r"
  by (cases key) simp_all

lemma FLT_setCell: "key \<noteq> C_FLT \<Longrightarrow> FLT_T (setCell key v r) = FLT_T r"
  by (cases key) simp_all

lemma row_id_updateEntry [simp]: "row_id (updateEntry key v r) = row_id r"
  by (simp add: updateEntry_def Let_def)

text \<open>
  C1, as amended. For every row and every update of the take-off or the landing field
  that leaves at least one of the two non-empty, the flight time of the row afterwards is
  the elapsed span of its current take-off and landing; when both are empty afterwards,
  the flight time keeps its previous value. The flight time is an editable column as
  well: an update of the flight-time field stores the given text as it is. An update of
  any other field leaves the flight time as it was, and no update of a field other than
  the block time changes the block time. On an open sheet \<open>updateRow\<close> applies this
  update to the rows with the given id.
\<close>

theorem updateEntry_flightTime:
  "((key = C_TO \<or> key = C_LD)
      \<and> (T_O (updateEntry key v r) \<noteq> [] \<or> L_D (updateEntry key v r) \<noteq> [])
     \<longrightarrow> FLT_T (updateEntry key v r)
           = elapsed (T_O (updateEntry key v r)) (L_D (updateEntry key v r)))
   \<and> ((key = C_TO \<or> key = C_LD)
         \<and> T_O (updateEntry key v r) = [] \<and> L_D (updateEntry key v r) = []
       \<longrightarrow> FLT_T (updateEntry key v r) = FLT_T r)
   \<and> FLT_T (updateEntry C_FLT v r) = v
   \<and> (key \<noteq> C_TO \<and> key \<noteq> C_LD \<and> key \<noteq> C_FLT \<longrightarrow> FLT_T (updateEntry key v r) = FLT_T r)
   \<and> (key \<noteq> C_BLK \<longrightarrow> BLK_T (updateEntry key v r) = BLK_T r)
   \<and> (\<not> isClosed st \<longrightarrow>
        rows (updateRow i key v st)
          = map (\<lambda>x. if row_id x = i then updateEntry key v x else x) (rows st))"
proof (intro conjI impI)
  assume a: "(key = C_TO \<or> key = C_LD)
      \<and> (T_O (updateEntry key v r) \<noteq> [] \<or> L_D (updateEntry key v r) \<noteq> [])"
  then show "FLT_T (updateEntry key v r)
           = elapsed (T_O (updateEntry key v r)) (L_D (updateEntry key v r))"
    by (auto simp: updateEntry_def Let_def calcBlock_refines_elapsed split: if_splits)
next
  assume "(key = C_TO \<or> key = C_LD)
         \<and> T_O (updateEntry key v r) = [] \<and> L_D (updateEntry key v r) = []"
  then show "FLT_T (updateEntry key v r) = FLT_T r"
    by (auto simp: updateEntry_def Let_def split: if_splits)
next
  show "FLT_T (updateEntry C_FLT v r) = v" by (simp add: updateEntry_def)
next
  assume "key \<noteq> C_TO \<and> key \<noteq> C_LD \<and> key \<noteq> C_FLT"
  then show "FLT_T (updateEntry key v r) = FLT_T r"
    by (simp add: updateEntry_def FLT_setCell)
next
  assume "key \<noteq> C_BLK"
  then show "BLK_T (updateEntry key v r) = BLK_T r"
    by (simp add: updateEntry_def Let_def BLK_setCell)
next
  assume "\<not> isClosed st"
  then show "rows (updateRow i key v st)
          = map (\<lambda>x. if row_id x = i then updateEntry key v x else x) (rows st)"
    by (auto simp: updateRow_def)
qed

theorem updateEntry_flightTime_witness:
  "FLT_T (updateEntry C_LD ''11:40'' ((entry ''a'' ''1'')\<lparr>T_O := ''10:10'', BLK_T := ''01:45''\<rparr>))
     = ''01:30''
   \<and> BLK_T (updateEntry C_LD ''11:40'' ((entry ''a'' ''1'')\<lparr>T_O := ''10:10'', BLK_T := ''01:45''\<rparr>))
     = ''01:45''"
proof -
  have e: "elapsed ''10:10'' ''11:40'' = ''01:30''" by code_simp
  have t: "T_O (updateEntry C_LD ''11:40'' ((entry ''a'' ''1'')\<lparr>T_O := ''10:10'', BLK_T := ''01:45''\<rparr>)) = ''10:10''"
    "L_D (updateEntry C_LD ''11:40'' ((entry ''a'' ''1'')\<lparr>T_O := ''10:10'', BLK_T := ''01:45''\<rparr>)) = ''11:40''"
    by (simp_all add: updateEntry_def entry_def)
  show ?thesis
    using updateEntry_flightTime [of C_LD "''11:40''"
        "(entry ''a'' ''1'')\<lparr>T_O := ''10:10'', BLK_T := ''01:45''\<rparr>" initialSheet "''a''"]
    by (simp add: t e)
qed

text \<open>
  C1 as stated fails in two ways. An update of the flight-time field of a row with
  take-off 10:10 and landing 11:40 stores 05:00, not the elapsed span 01:30. And
  emptying the take-off of a row whose landing is empty leaves a flight time of 05:00 in
  place, where the elapsed span of the two empty texts is empty.
\<close>

theorem flightTime_not_derived_only:
  "map (\<lambda>r. (T_O r, L_D r, FLT_T r))
       (rows (updateRow ''a'' C_FLT ''05:00''
          (initialSheet\<lparr>rows := [(entry ''a'' ''1'')\<lparr>T_O := ''10:10'', L_D := ''11:40'',
                                     FLT_T := ''01:30''\<rparr>]\<rparr>)))
     = [(''10:10'', ''11:40'', ''05:00'')]
   \<and> elapsed ''10:10'' ''11:40'' = ''01:30''
   \<and> map (\<lambda>r. (T_O r, L_D r, FLT_T r))
       (rows (updateRow ''a'' C_TO []
          (initialSheet\<lparr>rows := [(entry ''a'' ''1'')\<lparr>T_O := ''10:10'', FLT_T := ''05:00''\<rparr>]\<rparr>)))
     = [([], [], ''05:00'')]
   \<and> elapsed [] [] = []"
proof (intro conjI)
  show "elapsed ''10:10'' ''11:40'' = ''01:30''" by code_simp
  show "elapsed [] [] = []" by (simp add: elapsed_def)
qed (simp_all add: updateRow_def updateEntry_def initialSheet_def entry_def)


section \<open>The closed sheet\<close>

lemmas sheet_defs = initialSheet_def entry_def closeFlight_def addRow_def addFerryRow_def
  setFobStart_def fobStartEffect_def fobSeed_def FERRY_ID_def

lemma decimalText_1: "decimalText (Fin 1) = ''1''" by (simp add: decimalText_def)

text \<open>
  C2. On a closed sheet the starting-fuel field is still editable: the sheet reached by
  adding a load row and closing the flight has the closed flag set, and typing 500 into
  the starting-fuel field changes both the field and the fuel on board of the row. (The
  claim asks that every header-field edit other than the duty-window fields leaves a
  closed sheet unchanged.)
\<close>

theorem setFobStart_while_closed:
  "isClosed (closeFlight (addRow decimalText ''a'' initialSheet))
   \<and> rows (closeFlight (addRow decimalText ''a'' initialSheet)) = [entry ''a'' ''1'']
   \<and> fobStart (closeFlight (addRow decimalText ''a'' initialSheet)) = []
   \<and> fobStart (setFobStart ''500'' (closeFlight (addRow decimalText ''a'' initialSheet))) = ''500''
   \<and> rows (setFobStart ''500'' (closeFlight (addRow decimalText ''a'' initialSheet)))
       = [(entry ''a'' ''1'')\<lparr>FOB := ''500''\<rparr>]"
  by (simp add: sheet_defs nextLoadNumber_def decimalText_1)

text \<open>
  The row operations and the edits of pilot, drop zone, registration and date do leave a
  closed sheet unchanged.
\<close>

lemma closed_operations_noop:
  assumes "isClosed st"
  shows "addRow str u st = st" "addFerryRow st = st" "updateRow i key v st = st"
    "setNow now i key st = st" "deleteRow i st = st" "clearRow i st = st"
    "setPilot v st = st" "setDz v st = st" "setReg v st = st" "setDate v st = st"
  using assms
  by (simp_all add: addRow_def addFerryRow_def updateRow_def setNow_def deleteRow_def
        clearRow_def setPilot_def setDz_def setReg_def setDate_def)

section \<open>The ferry row\<close>

lemma ferryInvariant_tl:
  "ferryInvariant rs \<longleftrightarrow> list_all (\<lambda>r. row_id r \<noteq> FERRY_ID) (tl rs)"
proof (cases rs)
  case Nil
  then show ?thesis by (simp add: ferryInvariant_def)
next
  case (Cons r rs')
  have "(\<forall>k < length (r # rs'). row_id ((r # rs') ! k) = FERRY_ID \<longrightarrow> k = 0)
          \<longleftrightarrow> (\<forall>j < length rs'. row_id (rs' ! j) \<noteq> FERRY_ID)"
  proof
    assume h: "\<forall>k < length (r # rs'). row_id ((r # rs') ! k) = FERRY_ID \<longrightarrow> k = 0"
    show "\<forall>j < length rs'. row_id (rs' ! j) \<noteq> FERRY_ID"
    proof (intro allI impI)
      fix j assume "j < length rs'"
      then show "row_id (rs' ! j) \<noteq> FERRY_ID" using h[rule_format, of "Suc j"] by auto
    qed
  next
    assume h: "\<forall>j < length rs'. row_id (rs' ! j) \<noteq> FERRY_ID"
    show "\<forall>k < length (r # rs'). row_id ((r # rs') ! k) = FERRY_ID \<longrightarrow> k = 0"
    proof (intro allI impI)
      fix k assume "k < length (r # rs')" "row_id ((r # rs') ! k) = FERRY_ID"
      then show "k = 0" using h by (cases k) auto
    qed
  qed
  moreover have "list_all (\<lambda>r. row_id r \<noteq> FERRY_ID) rs'
                  \<Longrightarrow> filter (\<lambda>r. row_id r = FERRY_ID) rs' = []"
    by (simp add: list_all_iff filter_empty_conv)
  ultimately show ?thesis
    using Cons by (auto simp: ferryInvariant_def list_all_length)
qed

text \<open>
  C4. Import gives the ferry identifier to every line whose load label is FERRY, without
  looking at the other lines: a file with two such lines yields two rows with the ferry
  identifier, and a file whose second line is the ferry line yields a ferry row that is
  not the first row. (The claim asks for at most one ferry row, in first position, in
  every reachable state, import included.)
\<close>

theorem importCSV_breaks_ferry_invariant:
  "map row_id (rows (snd (importCSV sampleUid twoFerryCsv initialSheet))) = [FERRY_ID, FERRY_ID]
   \<and> map row_id (rows (snd (importCSV sampleUid lateFerryCsv initialSheet))) = [''id000000'', FERRY_ID]"
proof
  show "map row_id (rows (snd (importCSV sampleUid twoFerryCsv initialSheet)))
          = [FERRY_ID, FERRY_ID]"
    by code_simp
  show "map row_id (rows (snd (importCSV sampleUid lateFerryCsv initialSheet)))
          = [''id000000'', FERRY_ID]"
    by code_simp
qed

text \<open>Neither of the two imported sheets satisfies the invariant of the ferry row.\<close>

lemma imported_sheets_violate_ferryInvariant:
  "\<not> ferryInvariant (rows (snd (importCSV sampleUid twoFerryCsv initialSheet)))"
  "\<not> ferryInvariant (rows (snd (importCSV sampleUid lateFerryCsv initialSheet)))"
proof -
  have a: "map row_id (rows (snd (importCSV sampleUid twoFerryCsv initialSheet)))
             = [FERRY_ID, FERRY_ID]"
    by code_simp
  have b: "map row_id (rows (snd (importCSV sampleUid lateFerryCsv initialSheet)))
             = [''id000000'', FERRY_ID]"
    by code_simp
  have c: "\<not> ferryInvariant rs" if "map row_id rs = [x, FERRY_ID]" for rs x
  proof -
    from that obtain r1 r2 where "rs = [r1, r2]" "row_id r2 = FERRY_ID" by auto
    then show ?thesis by (simp add: ferryInvariant_tl)
  qed
  show "\<not> ferryInvariant (rows (snd (importCSV sampleUid twoFerryCsv initialSheet)))"
    using a by (rule c)
  show "\<not> ferryInvariant (rows (snd (importCSV sampleUid lateFerryCsv initialSheet)))"
    using b by (rule c)
qed

text \<open>
  Apart from import, every operation keeps the invariant of the ferry row; \<open>addRow\<close>
  needs the new identifier to differ from the ferry identifier, which holds for every
  result of \<^verbatim>\<open>uid()\<close> since it has at most eight characters.
\<close>

lemma findIndex_None: "findIndex P xs = None \<longleftrightarrow> \<not> list_ex P xs"
  by (induction xs) auto

lemma findIndex_Some:
  "findIndex P xs = Some k \<Longrightarrow> k < length xs \<and> P (xs ! k) \<and> (\<forall>j < k. \<not> P (xs ! j))"
proof (induction xs arbitrary: k)
  case Nil
  then show ?case by simp
next
  case (Cons x xs)
  show ?case
  proof (cases "P x")
    case True
    then show ?thesis using Cons.prems by simp
  next
    case False
    then obtain k' where k': "findIndex P xs = Some k'" "k = Suc k'"
      using Cons.prems by auto
    from Cons.IH[OF k'(1)] False k'(2) show ?thesis
      by (auto simp: less_Suc_eq_0_disj)
  qed
qed

lemma row_id_clearEntry [simp]: "row_id (clearEntry r) = row_id r"
  by (simp add: clearEntry_def)

lemma list_all_tl: "list_all P xs \<Longrightarrow> list_all P (tl xs)"
  by (cases xs) simp_all

lemma ferryInvariant_map:
  assumes "ferryInvariant rs" and "\<And>r. row_id (f r) = row_id r"
  shows "ferryInvariant (map f rs)"
  using assms by (simp add: ferryInvariant_tl map_tl[symmetric] list_all_iff)

lemma ferryInvariant_filter:
  assumes "ferryInvariant rs"
  shows "ferryInvariant (filter Q rs)"
proof (cases rs)
  case Nil
  then show ?thesis by (simp add: ferryInvariant_tl)
next
  case (Cons r rs')
  then have t: "list_all (\<lambda>r. row_id r \<noteq> FERRY_ID) rs'"
    using assms by (simp add: ferryInvariant_tl)
  then have "list_all (\<lambda>r. row_id r \<noteq> FERRY_ID) (filter Q rs')"
    by (simp add: list_all_iff)
  then show ?thesis using Cons by (auto simp: ferryInvariant_tl intro: list_all_tl)
qed

lemma ferryInvariant_fobSeed:
  assumes "ferryInvariant rs"
  shows "ferryInvariant (fobSeed fob rs)"
proof -
  have "ferryInvariant (map (\<lambda>r. if row_id r = t \<and> FOB r = [] then r\<lparr>FOB := fob\<rparr> else r) rs)" for t
    using assms by (rule ferryInvariant_map) simp
  then show ?thesis using assms
    by (auto simp: fobSeed_def Let_def split: option.splits list.splits)
qed

lemma ferryInvariant_addRow:
  assumes "ferryInvariant (rows st)" and "u \<noteq> FERRY_ID"
  shows "ferryInvariant (rows (addRow str u st))"
proof (cases "isClosed st")
  case True
  then show ?thesis using assms by (simp add: addRow_def)
next
  case False
  show ?thesis
  proof (cases "rows st")
    case Nil
    then show ?thesis using False by (simp add: addRow_def ferryInvariant_tl Let_def)
  next
    case (Cons r rs')
    then have t: "list_all (\<lambda>r. row_id r \<noteq> FERRY_ID) rs'"
      using assms(1) by (simp add: ferryInvariant_tl)
    then have n: "findIndex (\<lambda>x. row_id x = FERRY_ID) rs' = None"
      by (simp add: findIndex_None list_ex_iff list_all_iff)
    show ?thesis
      using False Cons t n assms(2)
      by (cases "row_id r = FERRY_ID") (simp_all add: addRow_def ferryInvariant_tl Let_def)
  qed
qed

lemma ferryInvariant_addFerryRow:
  assumes "ferryInvariant (rows st)"
  shows "ferryInvariant (rows (addFerryRow st))"
  using assms
  by (auto simp: addFerryRow_def Let_def ferryInvariant_tl list_ex_iff list_all_iff)

lemma ferryInvariant_operations:
  assumes "ferryInvariant (rows st)"
  shows "ferryInvariant (rows (updateRow i key v st))"
    and "ferryInvariant (rows (setNow now i key st))"
    and "ferryInvariant (rows (deleteRow i st))"
    and "ferryInvariant (rows (clearRow i st))"
    and "ferryInvariant (rows (setFobStart v st))"
    and "ferryInvariant (rows (closeFlight st))"
    and "ferryInvariant (rows (newFlight st))"
proof -
  show u: "ferryInvariant (rows (updateRow i key v st))" for v
    using assms by (auto simp: updateRow_def intro!: ferryInvariant_map)
  show "ferryInvariant (rows (setNow now i key st))"
    using assms u by (simp add: setNow_def)
  show "ferryInvariant (rows (deleteRow i st))"
    using assms by (auto simp: deleteRow_def intro!: ferryInvariant_filter)
  show "ferryInvariant (rows (clearRow i st))"
    using assms by (auto simp: clearRow_def intro!: ferryInvariant_map)
  show "ferryInvariant (rows (setFobStart v st))"
    using assms by (auto simp: setFobStart_def fobStartEffect_def intro!: ferryInvariant_fobSeed)
  show "ferryInvariant (rows (closeFlight st))"
    using assms by (simp add: closeFlight_def)
  show "ferryInvariant (rows (newFlight st))"
    by (simp add: newFlight_def ferryInvariant_tl)
qed

text \<open>
  C6. After the import of a file with two ferry lines and no load row, a change of the
  starting fuel to 500 sets the fuel on board of both rows: the seed looks its target up
  by identifier, and both rows carry the ferry identifier. (The claim asks that no row
  but the target row changes.)
\<close>

theorem fobSeed_two_ferry_rows:
  "map (\<lambda>r. (row_id r, FOB r)) (rows (snd (importCSV sampleUid twoFerryCsv initialSheet)))
     = [(FERRY_ID, []), (FERRY_ID, [])]
   \<and> map (\<lambda>r. (row_id r, FOB r))
        (rows (setFobStart ''500'' (snd (importCSV sampleUid twoFerryCsv initialSheet))))
     = [(FERRY_ID, ''500''), (FERRY_ID, ''500'')]"
  by code_simp

text \<open>
  When the identifiers of the rows are pairwise distinct, the seed does what C6 says: the
  target is the first row other than the ferry row, else the ferry row; it gets the
  starting fuel if its fuel on board is empty (and its identifier is not the empty
  text), and no other row changes.
\<close>

lemma filter_findIndex:
  "findIndex P xs = Some k \<Longrightarrow> \<exists>rest. filter P xs = xs ! k # rest"
proof (induction xs arbitrary: k)
  case Nil
  then show ?case by simp
next
  case (Cons x xs)
  then show ?case by (cases "P x") auto
qed

lemma find_findIndex: "find P xs = map_option (\<lambda>k. xs ! k) (findIndex P xs)"
  by (induction xs) (auto simp: option.map_comp comp_def)

lemma map_at_unique:
  assumes "distinct (map f xs)" and "k < length xs"
  shows "map (\<lambda>r. if f r = f (xs ! k) then h r else r) xs = xs[k := h (xs ! k)]"
proof (rule nth_equalityI)
  show "length (map (\<lambda>r. if f r = f (xs ! k) then h r else r) xs) = length (xs[k := h (xs ! k)])"
    by simp
next
  fix j assume j: "j < length (map (\<lambda>r. if f r = f (xs ! k) then h r else r) xs)"
  then have jl: "j < length xs" by simp
  have "f (xs ! j) = f (xs ! k) \<longleftrightarrow> j = k"
    using assms jl nth_eq_iff_index_eq[of "map f xs" j k] by auto
  then show "map (\<lambda>r. if f r = f (xs ! k) then h r else r) xs ! j = xs[k := h (xs ! k)] ! j"
    using jl assms(2) by (auto simp: nth_list_update)
qed

lemma fobSeed_targetId:
  "(case filter (\<lambda>r. row_id r \<noteq> FERRY_ID) prev of
      l # _ \<Rightarrow> Some (row_id l)
    | [] \<Rightarrow> map_option row_id (find (\<lambda>r. row_id r = FERRY_ID) prev))
   = map_option (\<lambda>k. row_id (prev ! k)) (seedTarget prev)"
proof (cases "findIndex (\<lambda>r. row_id r \<noteq> FERRY_ID) prev")
  case None
  then have "filter (\<lambda>r. row_id r \<noteq> FERRY_ID) prev = []"
    by (simp add: findIndex_None list_ex_iff filter_empty_conv)
  then show ?thesis
    using None by (simp add: seedTarget_def find_findIndex option.map_comp comp_def)
next
  case (Some k)
  from filter_findIndex[OF Some] obtain rest
    where "filter (\<lambda>r. row_id r \<noteq> FERRY_ID) prev = prev ! k # rest" by blast
  then show ?thesis using Some by (simp add: seedTarget_def)
qed

lemma seedTarget_bound: "seedTarget prev = Some k \<Longrightarrow> k < length prev"
  by (auto simp: seedTarget_def split: option.splits dest: findIndex_Some)

lemma fobSeed_distinct_ids:
  assumes "distinct (map row_id prev)"
  shows "fobSeed fob prev =
     (case seedTarget prev of
        None \<Rightarrow> prev
      | Some k \<Rightarrow> if row_id (prev ! k) \<noteq> [] \<and> FOB (prev ! k) = []
                  then prev[k := (prev ! k)\<lparr>FOB := fob\<rparr>] else prev)"
proof (cases "seedTarget prev")
  case None
  then show ?thesis by (simp add: fobSeed_def Let_def fobSeed_targetId)
next
  case (Some k)
  then have k: "k < length prev" by (rule seedTarget_bound)
  let ?t = "row_id (prev ! k)"
  have same: "row_id r = ?t \<longleftrightarrow> r = prev ! k" if "r \<in> set prev" for r
    using that assms k by (metis distinct_map inj_onD nth_mem)
  have m: "map (\<lambda>r. if row_id r = ?t \<and> FOB r = [] then r\<lparr>FOB := fob\<rparr> else r) prev
             = (if FOB (prev ! k) = [] then prev[k := (prev ! k)\<lparr>FOB := fob\<rparr>] else prev)"
  proof (cases "FOB (prev ! k) = []")
    case True
    have "map (\<lambda>r. if row_id r = ?t \<and> FOB r = [] then r\<lparr>FOB := fob\<rparr> else r) prev
            = map (\<lambda>r. if row_id r = ?t then r\<lparr>FOB := fob\<rparr> else r) prev"
      using same True by (intro map_cong) auto
    also have "\<dots> = prev[k := (prev ! k)\<lparr>FOB := fob\<rparr>]"
      using assms k by (rule map_at_unique)
    finally show ?thesis using True by simp
  next
    case False
    have "map (\<lambda>r. if row_id r = ?t \<and> FOB r = [] then r\<lparr>FOB := fob\<rparr> else r) prev = map (\<lambda>r. r) prev"
      using same False by (intro map_cong) auto
    then show ?thesis using False by simp
  qed
  have c: "list_ex (\<lambda>r. row_id r = ?t \<and> FOB r = []) prev \<longleftrightarrow> FOB (prev ! k) = []"
    using same k by (auto simp: list_ex_iff)
  show ?thesis
    using Some by (simp add: fobSeed_def Let_def fobSeed_targetId m c)
qed

section \<open>CSV import: the header check\<close>

lemma trim_Nil [simp]: "trim [] = []" by (simp add: trim_def)

lemma list_all_enumerate:
  "list_all P (enumerate n xs) \<longleftrightarrow> (\<forall>i < length xs. P (n + i, xs ! i))"
  by (simp add: list_all_length nth_enumerate_eq)

lemma length_COLS: "length COLS = 11" by (simp add: COLS_def)

lemma headerOk_iff:
  "headerOk header \<longleftrightarrow> (\<forall>i < length COLS. headerCell header i = colName (COLS ! i))"
proof -
  have "(case cellAt header i of None \<Rightarrow> [] | Some h \<Rightarrow> if h = [] then [] else trim h)
          = headerCell header i" for i
    by (simp add: cellAt_def headerCell_def)
  then show ?thesis by (simp add: headerOk_def list_all_enumerate)
qed

text \<open>
  C7, as amended. The header has eleven columns. A text with fewer than two non-empty
  lines is ignored: no message, state unchanged. For a text with at least two non-empty
  lines, the first non-empty line is split at commas; if one of its first eleven cells,
  with surrounding white space removed (a missing cell counting as empty), differs from
  the column name at its position, import shows the header-mismatch message and leaves
  the state unchanged. Otherwise import goes ahead and replaces the rows.
\<close>

theorem importCSV_header_check:
  "length COLS = 11
   \<and> (length (csvLines txt) < 2 \<longrightarrow> importCSV uid txt st = (None, st))
   \<and> (2 \<le> length (csvLines txt)
        \<and> (\<exists>i < length COLS.
              headerCell (splitOn (CHR '','') (hd (csvLines txt))) i \<noteq> colName (COLS ! i))
       \<longrightarrow> importCSV uid txt st = (Some headerMismatch, st))
   \<and> (2 \<le> length (csvLines txt)
        \<and> (\<forall>i < length COLS.
              headerCell (splitOn (CHR '','') (hd (csvLines txt))) i = colName (COLS ! i))
       \<longrightarrow> importCSV uid txt st
             = (None, st\<lparr>rows := map (\<lambda>(k, line). importLine (uid k) line)
                                    (enumerate 0 (tl (csvLines txt)))\<rparr>))"
  by (auto simp: length_COLS importCSV_def Let_def headerOk_iff)

lemma csvLines_badHeader:
  "csvLines badHeaderCsv = [''Load;T/O'', ''1'']"
  by (simp add: csvLines_def badHeaderCsv_def)

theorem importCSV_header_check_witness:
  "importCSV sampleUid badHeaderCsv (initialSheet\<lparr>rows := [entry ''a'' ''1'']\<rparr>)
     = (Some headerMismatch, initialSheet\<lparr>rows := [entry ''a'' ''1'']\<rparr>)
   \<and> importCSV sampleUid ''Load;T/O'' (initialSheet\<lparr>rows := [entry ''a'' ''1'']\<rparr>)
     = (None, initialSheet\<lparr>rows := [entry ''a'' ''1'']\<rparr>)"
proof -
  have m: "\<exists>i < length COLS.
      headerCell (splitOn (CHR '','') (hd (csvLines badHeaderCsv))) i
        \<noteq> colName (COLS ! i)"
    by (rule exI[of _ 0]) (simp add: csvLines_badHeader headerCell_def COLS_def trim_def isWhiteSpace_def)
  have s: "csvLines ''Load;T/O'' = [''Load;T/O'']" by (simp add: csvLines_def)
  show ?thesis
    using importCSV_header_check [of badHeaderCsv sampleUid
        "initialSheet\<lparr>rows := [entry ''a'' ''1'']\<rparr>"]
      importCSV_header_check [of "''Load;T/O''" sampleUid
        "initialSheet\<lparr>rows := [entry ''a'' ''1'']\<rparr>"] m
    by (simp add: csvLines_badHeader s)
qed

text \<open>
  C7 as stated fails in two ways. The first line of \<open>paddedHeaderCsv\<close> is not the exact
  header (its first cell starts with a space), yet import accepts it and replaces the
  rows. And a text of a single line that is not the header is dropped without any
  message.
\<close>

theorem importCSV_lenient_header:
  "hd (splitLines paddedHeaderCsv) \<noteq> join '','' (map colName COLS)
   \<and> importCSV sampleUid paddedHeaderCsv (initialSheet\<lparr>rows := [entry ''a'' ''1'']\<rparr>)
       = (None, initialSheet\<lparr>rows := [entry ''id000000'' ''7'']\<rparr>)
   \<and> hd (splitLines ''Load;T/O'') \<noteq> join '','' (map colName COLS)
   \<and> importCSV sampleUid ''Load;T/O'' (initialSheet\<lparr>rows := [entry ''a'' ''1'']\<rparr>)
       = (None, initialSheet\<lparr>rows := [entry ''a'' ''1'']\<rparr>)"
proof (intro conjI)
  show "hd (splitLines paddedHeaderCsv) \<noteq> join '','' (map colName COLS)"
    by (simp add: paddedHeaderCsv_def COLS_def)
  show "importCSV sampleUid paddedHeaderCsv (initialSheet\<lparr>rows := [entry ''a'' ''1'']\<rparr>)
       = (None, initialSheet\<lparr>rows := [entry ''id000000'' ''7'']\<rparr>)"
    by code_simp
  show "hd (splitLines ''Load;T/O'') \<noteq> join '','' (map colName COLS)"
    by (simp add: COLS_def)
  show "importCSV sampleUid ''Load;T/O'' (initialSheet\<lparr>rows := [entry ''a'' ''1'']\<rparr>)
       = (None, initialSheet\<lparr>rows := [entry ''a'' ''1'']\<rparr>)"
    by (simp add: importCSV_def csvLines_def)
qed


section \<open>CSV export and re-import\<close>

lemma splitOn_clean: "sep \<notin> set l \<Longrightarrow> splitOn sep l = [l]"
  by (induction l) auto

lemma splitOn_append:
  "sep \<notin> set l \<Longrightarrow> splitOn sep (l @ sep # rest) = l # splitOn sep rest"
  by (induction l) auto

lemma splitOn_join:
  "xs \<noteq> [] \<Longrightarrow> \<forall>x \<in> set xs. sep \<notin> set x \<Longrightarrow> splitOn sep (join [sep] xs) = xs"
proof (induction "[sep]" xs rule: join.induct)
  case 1
  then show ?case by simp
next
  case (2 x)
  then show ?case by (simp add: splitOn_clean)
next
  case (3 x y ys)
  then show ?case by (simp add: splitOn_append)
qed

lemma splitLines_LF: "splitLines (CHR 0x0A # rest) = [] # splitLines rest"
  by (cases rest) simp_all

lemma splitLines_clean: "CHR 0x0A \<notin> set l \<Longrightarrow> splitLines l = [l]"
  by (induction l rule: splitLines.induct) auto

lemma splitLines_append:
  "CHR 0x0A \<notin> set l \<Longrightarrow> CHR 0x0D \<notin> set l
     \<Longrightarrow> splitLines (l @ CHR 0x0A # rest) = l # splitLines rest"
proof (induction l)
  case Nil
  then show ?case by (simp add: splitLines_LF)
next
  case (Cons c l)
  then have ih: "splitLines (l @ CHR 0x0A # rest) = l # splitLines rest" by simp
  obtain d ds where d: "l @ CHR 0x0A # rest = d # ds" by (cases "l @ CHR 0x0A # rest") auto
  have "c \<noteq> CHR 0x0A" "c \<noteq> CHR 0x0D" using Cons.prems by auto
  then have "splitLines (c # d # ds) = consHead c (splitLines (d # ds))"
    by simp
  then show ?case using ih d by simp
qed

lemma splitLines_join:
  "ls \<noteq> [] \<Longrightarrow> \<forall>l \<in> set ls. CHR 0x0A \<notin> set l \<and> CHR 0x0D \<notin> set l
     \<Longrightarrow> splitLines (join [CHR 0x0A] ls) = ls"
proof (induction "[CHR 0x0A]" ls rule: join.induct)
  case 1
  then show ?case by simp
next
  case (2 x)
  then show ?case by (simp add: splitLines_clean)
next
  case (3 x y ys)
  then show ?case by (simp add: splitLines_append)
qed

lemma set_join: "set (join sep xs) \<subseteq> set sep \<union> \<Union> (set ` set xs)"
  by (induction sep xs rule: join.induct) auto


lemma rowLine_cells:
  "rowLine str r = join '','' [Load r, T_O r, L_D r, FLT_T r, BLK_T r, FOB r, F_B r,
      (case PAX r of Blank \<Rightarrow> [] | Num n \<Rightarrow> str n),
      (case LDG r of Blank \<Rightarrow> [] | Num n \<Rightarrow> str n), F_UP r, REMARKS r]"
  by (simp add: rowLine_def COLS_def cellText_def)

lemma importLine_rowLine:
  assumes clean: "\<forall>c \<in> set COLS. cleanText (cellText str r c)"
    and pax: "\<forall>n. PAX r = Num n \<longrightarrow> str n \<noteq> [] \<and> Number_str (str n) = n"
    and ldg: "\<forall>n. LDG r = Num n \<longrightarrow> str n \<noteq> [] \<and> Number_str (str n) = n"
  shows "importLine u (rowLine str r) = reimported u r"
proof -
  let ?cells = "map (cellText str r) COLS"
  have "\<forall>x \<in> set ?cells. CHR '','' \<notin> set x"
    using clean by (auto simp: cleanText_def)
  moreover have "?cells \<noteq> []" by (simp add: COLS_def)
  ultimately have sp: "splitOn (CHR '','') (rowLine str r) = ?cells"
    unfolding rowLine_def by (rule splitOn_join[rotated])
  show ?thesis
    using pax ldg unfolding importLine_def sp
    by (cases r; cases "PAX r"; cases "LDG r")
       (auto simp: COLS_def cellText_def cellAt_def reimported_def Let_def)
qed


lemma map_import_enumerate:
  assumes "\<And>r u. r \<in> set rs \<Longrightarrow> importLine u (rowLine str r) = reimported u r"
  shows "map (\<lambda>(k, line). importLine (uid k) line) (enumerate n (map (rowLine str) rs))
           = map (\<lambda>(k, r). reimported (uid k) r) (enumerate n rs)"
  using assms by (induction rs arbitrary: n) simp_all

lemma header_line:
  "join '','' (map colName COLS) = ''Load,T/O,L/D,FLT/T,BLK/T,FOB,F/B,PAX,LDG,F/UP,REMARKS''"
  by (simp add: COLS_def)

lemma headerOk_header: "headerOk (splitOn (CHR '','') (join '','' (map colName COLS)))"
  by code_simp

lemma rowLine_nonempty: "rowLine str r \<noteq> []"
  by (simp add: rowLine_cells)

lemma rowLine_one_line:
  assumes "\<forall>c \<in> set COLS. cleanText (cellText str r c)"
  shows "CHR 0x0A \<notin> set (rowLine str r) \<and> CHR 0x0D \<notin> set (rowLine str r)"
proof -
  have "set (rowLine str r) \<subseteq> set '','' \<union> \<Union> (set ` set (map (cellText str r) COLS))"
    unfolding rowLine_def by (rule set_join)
  then show ?thesis using assms by (auto simp: cleanText_def)
qed

lemma csvLines_export:
  assumes "\<forall>r \<in> set rs. \<forall>c \<in> set COLS. cleanText (cellText str r c)"
  shows "csvLines (exportCSV str rs) = join '','' (map colName COLS) # map (rowLine str) rs"
proof -
  let ?h = "join '','' (map colName COLS)"
  let ?ls = "map (rowLine str) rs"
  have h: "CHR 0x0A \<notin> set ?h" "CHR 0x0D \<notin> set ?h" "?h \<noteq> []"
    by (simp_all add: header_line)
  have e: "exportCSV str rs = ?h @ CHR 0x0A # join [CHR 0x0A] ?ls"
    by (simp add: exportCSV_def Let_def)
  have "splitLines (exportCSV str rs) = ?h # splitLines (join [CHR 0x0A] ?ls)"
    unfolding e using h(1,2) by (rule splitLines_append)
  moreover have "filter (\<lambda>l. l \<noteq> []) (splitLines (join [CHR 0x0A] ?ls)) = ?ls"
  proof (cases "rs = []")
    case True
    then show ?thesis by simp
  next
    case False
    then have "splitLines (join [CHR 0x0A] ?ls) = ?ls"
      using assms by (intro splitLines_join) (auto simp: rowLine_one_line)
    then show ?thesis by (simp add: rowLine_nonempty filter_id_conv)
  qed
  ultimately show ?thesis using h(3) by (simp add: csvLines_def)
qed

text \<open>
  C8, as amended. Take a non-empty row list whose cell texts (the text cells, and the
  texts \<open>str\<close> gives for the passenger and landing numbers) contain no comma and no
  newline character, and whose numbers survive the conversion to text and back. Then
  importing the exported text shows no message and yields the rows in the same order
  with the same cells, except that every row has a new identifier (the ferry identifier
  when its load label is FERRY) and that an empty flight time is replaced by the elapsed
  span of take-off and landing. The export of the empty row list is not imported at all:
  the sheet stays as it is.
\<close>

theorem csv_round_trip:
  assumes "rs \<noteq> []"
    and "\<forall>r \<in> set rs. \<forall>c \<in> set COLS. cleanText (cellText str r c)"
    and "\<forall>r \<in> set rs. \<forall>n. PAX r = Num n \<or> LDG r = Num n
           \<longrightarrow> str n \<noteq> [] \<and> Number_str (str n) = n"
  shows "importCSV uid (exportCSV str rs) st
           = (None, st\<lparr>rows := map (\<lambda>(k, r). reimported (uid k) r) (enumerate 0 rs)\<rparr>)
         \<and> importCSV uid (exportCSV str []) st = (None, st)"
proof
  have l: "csvLines (exportCSV str rs) = join '','' (map colName COLS) # map (rowLine str) rs"
    using assms(2) by (rule csvLines_export)
  have "importLine u (rowLine str r) = reimported u r" if "r \<in> set rs" for r u
    using that assms(2,3) by (intro importLine_rowLine) auto
  then have m: "map (\<lambda>(k, line). importLine (uid k) line) (enumerate 0 (map (rowLine str) rs))
           = map (\<lambda>(k, r). reimported (uid k) r) (enumerate 0 rs)"
    by (rule map_import_enumerate)
  show "importCSV uid (exportCSV str rs) st
           = (None, st\<lparr>rows := map (\<lambda>(k, r). reimported (uid k) r) (enumerate 0 rs)\<rparr>)"
    using assms(1) by (simp add: importCSV_def l headerOk_header m Let_def)
next
  have "csvLines (exportCSV str []) = [join '','' (map colName COLS)]"
    using csvLines_export[of "[]" str] by simp
  then show "importCSV uid (exportCSV str []) st = (None, st)"
    by (simp add: importCSV_def)
qed


lemma decimalText_3: "decimalText (Fin 3) = ''3''" by (simp add: decimalText_def)

lemma Number_str_3: "Number_str ''3'' = Fin 3" by (simp add: Number_defs)

theorem csv_round_trip_witness:
  "importCSV sampleUid (exportCSV decimalText sampleRows) initialSheet
     = (None, initialSheet\<lparr>rows :=
         [(entry FERRY_ID ''FERRY'')\<lparr>T_O := ''08:00'', L_D := ''08:20'', FLT_T := ''00:20''\<rparr>,
          (entry ''id000001'' ''1'')\<lparr>BLK_T := ''00:30'', PAX := Num (Fin 3), REMARKS := ''ok''\<rparr>]\<rparr>)"
proof -
  have ne: "sampleRows \<noteq> []" by (simp add: sampleRows_def)
  have clean: "\<forall>r \<in> set sampleRows. \<forall>c \<in> set COLS. cleanText (cellText decimalText r c)"
    by (simp add: sampleRows_def COLS_def cellText_def cleanText_def entry_def FERRY_ID_def
          decimalText_3)
  have nums: "\<forall>r \<in> set sampleRows. \<forall>n. PAX r = Num n \<or> LDG r = Num n
           \<longrightarrow> decimalText n \<noteq> [] \<and> Number_str (decimalText n) = n"
    by (simp add: sampleRows_def entry_def decimalText_3 Number_str_3)
  have "map (\<lambda>(k, r). reimported (sampleUid k) r) (enumerate 0 sampleRows)
          = [(entry FERRY_ID ''FERRY'')\<lparr>T_O := ''08:00'', L_D := ''08:20'', FLT_T := ''00:20''\<rparr>,
             (entry ''id000001'' ''1'')\<lparr>BLK_T := ''00:30'', PAX := Num (Fin 3), REMARKS := ''ok''\<rparr>]"
    by (simp add: sampleRows_def reimported_def entry_def sampleUid_def FERRY_ID_def calcBlock_def)
  then show ?thesis
    using csv_round_trip [OF ne clean nums, of sampleUid initialSheet] by simp
qed

text \<open>
  C8 as stated fails. A load row gets take-off 10:10 and landing 11:40 and then has its
  flight time emptied by hand (the sheet reaches \<open>clockedRows\<close>); after export and
  re-import its flight time is 01:30, not empty. And the export of an empty sheet,
  imported into a sheet that holds rows, does not give the empty row list back.
\<close>

theorem csv_round_trip_fills_flight_time:
  "rows (updateRow ''a'' C_FLT [] (updateRow ''a'' C_LD ''11:40''
          (updateRow ''a'' C_TO ''10:10'' (addRow decimalText ''a'' initialSheet)))) = clockedRows
   \<and> map FLT_T clockedRows = [[]]
   \<and> map FLT_T (rows (snd (importCSV sampleUid (exportCSV decimalText clockedRows)
                              (initialSheet\<lparr>rows := clockedRows\<rparr>)))) = [''01:30'']
   \<and> rows (snd (importCSV sampleUid (exportCSV decimalText [])
                   (initialSheet\<lparr>rows := clockedRows\<rparr>))) = clockedRows"
proof (intro conjI)
  show "rows (updateRow ''a'' C_FLT [] (updateRow ''a'' C_LD ''11:40''
          (updateRow ''a'' C_TO ''10:10'' (addRow decimalText ''a'' initialSheet)))) = clockedRows"
    by (simp add: updateRow_def updateEntry_def addRow_def initialSheet_def nextLoadNumber_def
          decimalText_def clockedRows_def entry_def)
  show "map FLT_T clockedRows = [[]]" by (simp add: clockedRows_def entry_def)
  show "map FLT_T (rows (snd (importCSV sampleUid (exportCSV decimalText clockedRows)
                              (initialSheet\<lparr>rows := clockedRows\<rparr>)))) = [''01:30'']"
    by code_simp
  show "rows (snd (importCSV sampleUid (exportCSV decimalText [])
                   (initialSheet\<lparr>rows := clockedRows\<rparr>))) = clockedRows"
    by code_simp
qed


end
